theory Spec2Isabelle
  imports Complex_Main "HOL-Library.Monad_Syntax"
begin

section \<open>Geodetic transformations of flood\_tool/geo.py\<close>

text \<open>
  The module computes on numpy double-precision values. They are embedded as exact reals:
  rounding and overflow are not represented. A value that is not a finite real (an IEEE
  infinity or NaN, which numpy produces instead of raising) is \<open>None\<close>; the embedding does
  not follow such a value further, so \<open>None\<close> reads "some intermediate value of the
  computation is not a finite real". Python exceptions are values of type \<open>error\<close>.
\<close>

subsection \<open>Arithmetic of the array library\<close>

datatype error = ZeroDivisionError | ValueError

text \<open>numpy true division: a zero divisor gives an infinity or NaN.\<close>

definition fdiv :: "real \<Rightarrow> real \<Rightarrow> real option" where
  "fdiv x y = (if y = 0 then None else Some (x / y))"

text \<open>numpy \<open>sqrt\<close>: NaN below zero.\<close>

definition fsqrt :: "real \<Rightarrow> real option" where
  "fsqrt x = (if x < 0 then None else Some (sqrt x))"

text \<open>
  numpy \<open>x ** y\<close> with a floating-point exponent: NaN for a negative base with a
  non-integral exponent, an infinity for zero to a negative power.
\<close>

definition fpow :: "real \<Rightarrow> real \<Rightarrow> real option" where
  "fpow x y =
     (if 0 < x then Some (x powr y)
      else if x = 0 then (if 0 < y then Some 0 else if y = 0 then Some 1 else None)
      else if y \<in> \<int> then Some (x powi \<lfloor>y\<rfloor>)
      else None)"

text \<open>
  \<open>tan\<close>: over the reals it has poles where the cosine vanishes; there the value is not
  a finite real.
\<close>

definition ftan :: "real \<Rightarrow> real option" where
  "ftan x = (if cos x = 0 then None else Some (tan x))"

text \<open>
  numpy \<open>arctan2(y, x)\<close>, the angle of the point \<open>(x, y)\<close> in \<open>(-pi, pi]\<close>. The reals have
  one zero, so the cases that IEEE separates by the sign of a zero are taken at \<open>+0\<close>.
\<close>

definition arctan2 :: "real \<Rightarrow> real \<Rightarrow> real" where
  "arctan2 y x =
     (if 0 < x then arctan (y / x)
      else if x < 0 then (if 0 \<le> y then arctan (y / x) + pi else arctan (y / x) - pi)
      else if 0 < y then pi / 2
      else if y < 0 then - (pi / 2)
      else 0)"

subsection \<open>Ellipsoid and Datum\<close>

record ellipsoid =
  semi_a :: real
  semi_b :: real
  flat_n :: real
  e2 :: real
  F_0 :: real
  H :: real

record datum = ellipsoid +
  phi_0 :: real
  lam_0 :: real
  E_0 :: real
  N_0 :: real

text \<open>
  \<open>Ellipsoid.__init__\<close>: the arguments are Python numbers, so a zero divisor raises.
\<close>

definition Ellipsoid :: "real \<Rightarrow> real \<Rightarrow> real \<Rightarrow> error + ellipsoid" where
  "Ellipsoid a b f =
     (if a + b = 0 \<or> a\<^sup>2 = 0 then Inl ZeroDivisionError
      else Inr \<lparr> semi_a = a, semi_b = b, flat_n = (a - b) / (a + b),
                 e2 = (a\<^sup>2 - b\<^sup>2) / a\<^sup>2, F_0 = f, H = 0 \<rparr>)"

text \<open>\<open>Datum.__init__\<close>: the ellipsoid's fields, then the origin, with \<open>H\<close> overwritten.\<close>

definition Datum ::
  "real \<Rightarrow> real \<Rightarrow> real \<Rightarrow> real \<Rightarrow> real \<Rightarrow> real \<Rightarrow> real \<Rightarrow> real \<Rightarrow> error + datum" where
  "Datum a b f phi lam e0 n0 h =
     (case Ellipsoid a b f of
        Inl err \<Rightarrow> Inl err
      | Inr el \<Rightarrow> Inr \<lparr> semi_a = semi_a el, semi_b = semi_b el, flat_n = flat_n el,
                        e2 = e2 el, F_0 = F_0 el, H = h,
                        phi_0 = phi, lam_0 = lam, E_0 = e0, N_0 = n0 \<rparr>)"

subsection \<open>Angle utilities\<close>

definition rad :: "real \<Rightarrow> real \<Rightarrow> real \<Rightarrow> real" where
  "rad d m s = (d + m / 60 + s / 3600) * (pi / 180)"

text \<open>\<open>deg(rad)\<close> with \<open>dms=False\<close>.\<close>

definition deg :: "real \<Rightarrow> real" where
  "deg r = r * (180 / pi)"

text \<open>Python's \<open>x % 1.\<close> on floats: the result has the sign of the divisor.\<close>

definition fmod1 :: "real \<Rightarrow> real" where
  "fmod1 x = x - of_int \<lfloor>x\<rfloor>"

text \<open>
  \<open>round(x, 4)\<close> on a numpy double: scale by \<open>10^4\<close>, round to the nearest integer with
  ties to the even one, scale back.
\<close>

definition rint :: "real \<Rightarrow> int" where
  "rint t = (let r = \<lfloor>t + 1 / 2\<rfloor> in if of_int r = t + 1 / 2 \<and> odd r then r - 1 else r)"

definition round4 :: "real \<Rightarrow> real" where
  "round4 x = of_int (rint (x * 10000)) / 10000"

text \<open>\<open>deg(rad, dms=True)\<close>: degrees, minutes, seconds.\<close>

definition deg_dms :: "real \<Rightarrow> real \<times> real \<times> real" where
  "deg_dms r =
     (let d = r * (180 / pi);
          m = 60 * fmod1 d
      in (of_int \<lfloor>d\<rfloor>, of_int \<lfloor>m\<rfloor>, round4 (60 * fmod1 m)))"

subsection \<open>The two reference bodies\<close>

definition osgb36 :: datum where
  "osgb36 =
     \<lparr> semi_a = 6377563.396, semi_b = 6356256.910,
       flat_n = (6377563.396 - 6356256.910) / (6377563.396 + 6356256.910),
       e2 = (6377563.396\<^sup>2 - 6356256.910\<^sup>2) / 6377563.396\<^sup>2,
       F_0 = 0.9996012717, H = 24.7,
       phi_0 = rad 49 0 0, lam_0 = rad (- 2) 0 0, E_0 = 400000, N_0 = - 100000 \<rparr>"

definition wgs84 :: ellipsoid where
  "wgs84 =
     \<lparr> semi_a = 6378137, semi_b = 6356752.3142,
       flat_n = (6378137 - 6356752.3142) / (6378137 + 6356752.3142),
       e2 = (6378137\<^sup>2 - 6356752.3142\<^sup>2) / 6378137\<^sup>2,
       F_0 = 0.9996, H = 0 \<rparr>"

subsection \<open>Geographic to Cartesian\<close>

text \<open>
  \<open>lat_long_to_xyz\<close> at one index of its arrays. The \<open>datum\<close> argument is any ellipsoid
  or datum; the callers that omit it get \<open>osgb36\<close>.
\<close>

definition lat_long_to_xyz ::
  "real \<Rightarrow> real \<Rightarrow> bool \<Rightarrow> 'm ellipsoid_scheme \<Rightarrow> (real \<times> real \<times> real) option" where
  "lat_long_to_xyz latitude longitude radians d =
     (let latitude = (if \<not> radians then rad latitude 0 0 else latitude);
          longitude = (if \<not> radians then rad longitude 0 0 else longitude)
      in do {
        r \<leftarrow> fsqrt (1 - e2 d * (sin latitude)\<^sup>2);
        nu \<leftarrow> fdiv (semi_a d * F_0 d) r;
        Some ((nu + H d) * cos latitude * cos longitude,
              (nu + H d) * cos latitude * sin longitude,
              ((1 - e2 d) * nu + H d) * sin latitude)
      })"

text \<open>Line 168 of \<open>WGS84toOSGB36\<close>: the call leaves \<open>datum\<close> at its default.\<close>

definition WGS84toOSGB36_xyz :: "real \<Rightarrow> real \<Rightarrow> bool \<Rightarrow> (real \<times> real \<times> real) option" where
  "WGS84toOSGB36_xyz latitude longitude radians = lat_long_to_xyz latitude longitude radians osgb36"

subsection \<open>Cartesian to geographic\<close>

text \<open>The assignments of the loop body of \<open>xyz_to_lat_long\<close>, one definition each.\<close>

definition newton_nu :: "'m ellipsoid_scheme \<Rightarrow> real \<Rightarrow> real option" where
  "newton_nu d latitude =
     do { r \<leftarrow> fsqrt (1 - e2 d * (sin latitude)\<^sup>2);
          fdiv (semi_a d * F_0 d) r }"

definition newton_dnu :: "'m ellipsoid_scheme \<Rightarrow> real \<Rightarrow> real option" where
  "newton_dnu d latitude =
     do { w \<leftarrow> fpow (1 - e2 d * (sin latitude)\<^sup>2) 1.5;
          fdiv (- semi_a d * F_0 d * cos latitude * sin latitude) w }"

definition newton_f0 :: "'m ellipsoid_scheme \<Rightarrow> real \<Rightarrow> real \<Rightarrow> real \<Rightarrow> real option" where
  "newton_f0 d z p latitude =
     do { nu \<leftarrow> newton_nu d latitude;
          q \<leftarrow> fdiv (z + e2 d * nu * sin latitude) p;
          t \<leftarrow> ftan latitude;
          Some (q - t) }"

definition newton_f1 :: "'m ellipsoid_scheme \<Rightarrow> real \<Rightarrow> real \<Rightarrow> real option" where
  "newton_f1 d p latitude =
     do { nu \<leftarrow> newton_nu d latitude;
          dnu \<leftarrow> newton_dnu d latitude;
          pw \<leftarrow> fpow nu (cos latitude);
          q \<leftarrow> fdiv (e2 d * (pw + dnu * sin latitude)) p;
          c \<leftarrow> fdiv 1.0 ((cos latitude)\<^sup>2);
          Some (q - c) }"

definition newton_step :: "'m ellipsoid_scheme \<Rightarrow> real \<Rightarrow> real \<Rightarrow> real \<Rightarrow> real option" where
  "newton_step d z p latitude =
     do { f0 \<leftarrow> newton_f0 d z p latitude;
          f1 \<leftarrow> newton_f1 d p latitude;
          q \<leftarrow> fdiv f0 f1;
          Some (latitude - q) }"

text \<open>
  \<open>for _ in range(6)\<close>: the loop runs over the list it is given; a latitude that is no
  longer finite stays so through the remaining passes.
\<close>

fun newton_loop ::
  "'m ellipsoid_scheme \<Rightarrow> real \<Rightarrow> real \<Rightarrow> nat list \<Rightarrow> real option \<Rightarrow> real option" where
  "newton_loop d z p [] latitude = latitude"
| "newton_loop d z p (i # rest) latitude =
     newton_loop d z p rest (latitude \<bind> newton_step d z p)"

text \<open>The same loop, instrumented: it records the latitude after every pass.\<close>

fun newton_trace ::
  "'m ellipsoid_scheme \<Rightarrow> real \<Rightarrow> real \<Rightarrow> nat list \<Rightarrow> real option \<Rightarrow> real option list" where
  "newton_trace d z p [] latitude = []"
| "newton_trace d z p (i # rest) latitude =
     (latitude \<bind> newton_step d z p)
       # newton_trace d z p rest (latitude \<bind> newton_step d z p)"

text \<open>
  \<open>xyz_to_lat_long\<close> at one index. The longitude is always a finite real; the latitude
  is \<open>None\<close> when the iteration leaves the finite reals.
\<close>

definition xyz_to_lat_long ::
  "real \<Rightarrow> real \<Rightarrow> real \<Rightarrow> bool \<Rightarrow> 'm ellipsoid_scheme \<Rightarrow> real option \<times> real" where
  "xyz_to_lat_long x y z radians d =
     (let p = sqrt (x\<^sup>2 + y\<^sup>2);
          longitude = arctan2 y x;
          latitude = newton_loop d z p [0..<6] (Some (arctan2 z (p * (1 - e2 d))))
      in if \<not> radians then (map_option deg latitude, deg longitude)
         else (latitude, longitude))"

definition xyz_to_lat_long_trace ::
  "real \<Rightarrow> real \<Rightarrow> real \<Rightarrow> 'm ellipsoid_scheme \<Rightarrow> real option list" where
  "xyz_to_lat_long_trace x y z d =
     (let p = sqrt (x\<^sup>2 + y\<^sup>2)
      in newton_trace d z p [0..<6] (Some (arctan2 z (p * (1 - e2 d)))))"

subsection \<open>Arrays and the Helmert transform\<close>

text \<open>A numpy array of doubles: its shape and its elements in row-major order.\<close>

datatype ndarray = NDArray (shape: "nat list") (elems: "real list")

text \<open>Element \<open>[i, j]\<close> of a two-dimensional array.\<close>

definition at2 :: "ndarray \<Rightarrow> nat \<Rightarrow> nat \<Rightarrow> real" where
  "at2 X i j = elems X ! (i * (shape X ! 1) + j)"

text \<open>\<open>reshape\<close> to a given shape: the element count has to agree.\<close>

definition reshape :: "nat list \<Rightarrow> ndarray \<Rightarrow> error + ndarray" where
  "reshape sh X =
     (if prod_list sh = length (elems X) then Inr (NDArray sh (elems X)) else Inl ValueError)"

text \<open>\<open>X.reshape((3,-1))\<close>: three rows, the row length inferred from the element count.\<close>

definition reshape3 :: "ndarray \<Rightarrow> error + ndarray" where
  "reshape3 X =
     (if length (elems X) mod 3 = 0
      then Inr (NDArray [3, length (elems X) div 3] (elems X))
      else Inl ValueError)"

text \<open>\<open>M.dot(X)\<close> for a 3-by-3 matrix given by its rows and a 3-by-N array.\<close>

definition dot3 :: "real list list \<Rightarrow> ndarray \<Rightarrow> ndarray" where
  "dot3 m X =
     (let k = shape X ! 1
      in NDArray [3, k]
           (concat (map (\<lambda>i. map (\<lambda>j. (\<Sum>l\<leftarrow>[0..<3]. m ! i ! l * at2 X l j)) [0..<k]) [0..<3])))"

text \<open>\<open>T + Y\<close> for a 3-by-1 column and a 3-by-N array: the column is broadcast.\<close>

definition add_column :: "ndarray \<Rightarrow> ndarray \<Rightarrow> ndarray" where
  "add_column t Y =
     (let k = shape Y ! 1
      in NDArray [3, k]
           (concat (map (\<lambda>i. map (\<lambda>j. at2 t i 0 + at2 Y i j) [0..<k]) [0..<3])))"

record helmert =
  trans_T :: ndarray
  rot_M :: "real list list"

text \<open>\<open>HelmertTransform.__init__\<close>.\<close>

definition HelmertTransform ::
  "real \<Rightarrow> real \<Rightarrow> real \<Rightarrow> real \<Rightarrow> ndarray \<Rightarrow> error + helmert" where
  "HelmertTransform s rx ry rz t =
     (case reshape [3, 1] t of
        Inl err \<Rightarrow> Inl err
      | Inr t' \<Rightarrow> Inr \<lparr> trans_T = t',
                        rot_M = [ [1 + s, - rz, ry],
                                 [rz, 1 + s, - rx],
                                 [- ry, rx, 1 + s]] \<rparr>)"

text \<open>\<open>HelmertTransform.__call__\<close>.\<close>

definition HelmertTransform_call :: "helmert \<Rightarrow> ndarray \<Rightarrow> error + ndarray" where
  "HelmertTransform_call h X =
     (case reshape3 X of
        Inl err \<Rightarrow> Inl err
      | Inr X3 \<Rightarrow> Inr (add_column (trans_T h) (dot3 (rot_M h) X3)))"

definition WGS84toOSGB36transform :: helmert where
  "WGS84toOSGB36transform =
     \<lparr> trans_T = NDArray [3, 1] [- 446.448, 125.157, - 542.060],
       rot_M = [ [1 + 20.4894 / 1000000, - (- rad 0 0 0.8421), - rad 0 0 0.2470],
                [- rad 0 0 0.8421, 1 + 20.4894 / 1000000, - (- rad 0 0 0.1502)],
                [- (- rad 0 0 0.2470), - rad 0 0 0.1502, 1 + 20.4894 / 1000000]] \<rparr>"

subsection \<open>Datum composition and grid projection\<close>

text \<open>
  \<open>WGS84toOSGB36\<close> at one index: the point is a flat array of three elements, which the
  transform accepts, so the \<open>Inl\<close> branch is never taken.
\<close>

definition WGS84toOSGB36 :: "real \<Rightarrow> real \<Rightarrow> bool \<Rightarrow> (real \<times> real) option" where
  "WGS84toOSGB36 latitude longitude radians =
     (case WGS84toOSGB36_xyz latitude longitude radians of
        None \<Rightarrow> None
      | Some (x, y, z) \<Rightarrow>
          (case HelmertTransform_call WGS84toOSGB36transform (NDArray [3] [x, y, z]) of
             Inl err \<Rightarrow> None
           | Inr xyz \<Rightarrow>
               (case xyz_to_lat_long (at2 xyz 0 0) (at2 xyz 1 0) (at2 xyz 2 0) radians osgb36 of
                  (None, lon) \<Rightarrow> None
                | (Some lat, lon) \<Rightarrow> Some (lat, lon))))"

text \<open>\<open>get_easting_northing_from_lat_long\<close> at one index.\<close>

definition get_easting_northing_from_lat_long ::
  "real \<Rightarrow> real \<Rightarrow> bool \<Rightarrow> (real \<times> real) option" where
  "get_easting_northing_from_lat_long latitude longitude radians =
     (let latitude = (if \<not> radians then rad latitude 0 0 else latitude);
          longitude = (if \<not> radians then rad longitude 0 0 else longitude)
      in case WGS84toOSGB36 latitude longitude True of
           None \<Rightarrow> None
         | Some (latitude, longitude) \<Rightarrow>
             do {
               r \<leftarrow> fsqrt (1 - e2 osgb36 * (sin latitude)\<^sup>2);
               nu \<leftarrow> fdiv (semi_a osgb36 * F_0 osgb36) r;
               w \<leftarrow> fpow (1 - e2 osgb36 * (sin latitude)\<^sup>2) (3 / 2);
               rho \<leftarrow> fdiv (semi_a osgb36 * F_0 osgb36 * (1 - e2 osgb36)) w;
               nr \<leftarrow> fdiv nu rho;
               heta \<leftarrow> fsqrt (nr - 1);
               t \<leftarrow> ftan latitude;
               let n = flat_n osgb36;
                   M = semi_b osgb36 * F_0 osgb36 *
                         ((1 + n + (5 / 4) * n\<^sup>2 + (5 / 4) * n ^ 3) * (latitude - phi_0 osgb36)
                          - (3 * n + 3 * n\<^sup>2 + (21 / 8) * n ^ 3)
                              * sin (latitude - phi_0 osgb36) * cos (latitude + phi_0 osgb36)
                          + ((15 / 8) * n\<^sup>2 + (15 / 8) * n ^ 3)
                              * sin (2 * (latitude - phi_0 osgb36))
                              * cos (2 * (latitude + phi_0 osgb36))
                          - (35 / 24) * n ^ 3
                              * sin (3 * (latitude - phi_0 osgb36))
                              * cos (3 * (latitude + phi_0 osgb36)));
                   I = M + N_0 osgb36;
                   II = (nu / 2) * sin latitude * cos latitude;
                   III = (nu / 24) * sin latitude * (cos latitude) ^ 3
                           * (5 - t\<^sup>2 + 9 * heta\<^sup>2);
                   IIIA = (nu / 720) * sin latitude * (cos latitude) ^ 5
                           * (61 - 58 * t\<^sup>2 + t ^ 4);
                   IV = nu * cos latitude;
                   V = (nu / 6) * (cos latitude) ^ 3 * (nr - t\<^sup>2);
                   VI = (nu / 120) * (cos latitude) ^ 5
                          * (5 - 18 * t\<^sup>2 + t ^ 4 + 14 * heta\<^sup>2 - 58 * t\<^sup>2 * heta\<^sup>2);
                   dl = longitude - lam_0 osgb36;
                   easting = E_0 osgb36 + IV * dl + V * dl ^ 3 + VI * dl ^ 5;
                   northing = I + II * dl\<^sup>2 + III * dl ^ 4 + IIIA * dl ^ 6
               in Some (easting, northing)
             })"

subsection \<open>Elementwise evaluation over arrays\<close>

text \<open>
  numpy evaluates an arithmetic expression on one-dimensional arrays index by index. Two
  operands of lengths \<open>n\<close> and \<open>m\<close> combine when the lengths agree or one of them is 1
  (that operand is repeated); any other pair raises \<open>ValueError\<close>.
\<close>

definition bshape :: "nat \<Rightarrow> nat \<Rightarrow> error + nat" where
  "bshape n m = (if n = m then Inr n else if n = 1 then Inr m else if m = 1 then Inr n else Inl ValueError)"

definition bget :: "'a list \<Rightarrow> nat \<Rightarrow> 'a" where
  "bget xs i = (if length xs = 1 then xs ! 0 else xs ! i)"

text \<open>
  \<open>lat_long_to_xyz\<close> on arrays; the result is given by its columns. The first two rows of
  \<open>array((x, y, z))\<close> have the combined length, the third the length of \<open>latitude\<close>;
  rows of different lengths are taken as an error.
\<close>

definition lat_long_to_xyz_arr ::
  "real list \<Rightarrow> real list \<Rightarrow> bool \<Rightarrow> 'm ellipsoid_scheme \<Rightarrow> error + (real \<times> real \<times> real) option list" where
  "lat_long_to_xyz_arr latitude longitude radians d =
     (case bshape (length latitude) (length longitude) of
        Inl err \<Rightarrow> Inl err
      | Inr k \<Rightarrow>
          if length latitude \<noteq> k then Inl ValueError
          else Inr (map (\<lambda>i. lat_long_to_xyz (bget latitude i) (bget longitude i) radians d) [0..<k]))"

text \<open>
  \<open>xyz_to_lat_long\<close> on arrays. The longitude array is computed from \<open>x\<close> and \<open>y\<close> alone,
  before \<open>z\<close> is read; the latitude array combines all three.
\<close>

definition xyz_to_lat_long_arr ::
  "real list \<Rightarrow> real list \<Rightarrow> real list \<Rightarrow> bool \<Rightarrow> 'm ellipsoid_scheme \<Rightarrow> error + (real option list \<times> real list)" where
  "xyz_to_lat_long_arr x y z radians d =
     (case bshape (length x) (length y) of
        Inl err \<Rightarrow> Inl err
      | Inr k1 \<Rightarrow>
          (case bshape (length z) k1 of
             Inl err \<Rightarrow> Inl err
           | Inr k2 \<Rightarrow>
               Inr (map (\<lambda>i. fst (xyz_to_lat_long (bget x i) (bget y i) (bget z i) radians d)) [0..<k2],
                    map (\<lambda>i. snd (xyz_to_lat_long (bget x i) (bget y i) 0 radians d)) [0..<k1])))"

subsection \<open>Reference definitions, following the specification\<close>

text \<open>The identity matrix and the matrix \<open>S\<close> of the Helmert parameters, by entry.\<close>

definition spec_I3 :: "nat \<Rightarrow> nat \<Rightarrow> real" where
  "spec_I3 i k = (if i = k then 1 else 0)"

definition spec_S :: "real \<Rightarrow> real \<Rightarrow> real \<Rightarrow> real \<Rightarrow> nat \<Rightarrow> nat \<Rightarrow> real" where
  "spec_S s rx ry rz i k = [ [s, - rz, ry], [rz, s, - rx], [- ry, rx, s]] ! i ! k"

text \<open>Two array lengths that do not combine.\<close>

definition shape_mismatch :: "nat \<Rightarrow> nat \<Rightarrow> bool" where
  "shape_mismatch n m = (n \<noteq> m \<and> n \<noteq> 1 \<and> m \<noteq> 1)"

text \<open>
  The prime-vertical radius of curvature and the closed form of the conversion from
  geographic to Cartesian coordinates (section 4.2), over the reals.
\<close>

definition spec_nu :: "'m ellipsoid_scheme \<Rightarrow> real \<Rightarrow> real" where
  "spec_nu d lat = semi_a d * F_0 d / sqrt (1 - e2 d * (sin lat)\<^sup>2)"

definition geographicToCartesian ::
  "real \<Rightarrow> real \<Rightarrow> 'm ellipsoid_scheme \<Rightarrow> bool \<Rightarrow> real \<times> real \<times> real" where
  "geographicToCartesian lat long d inputIsRadians =
     (let lat = (if inputIsRadians then lat else lat * pi / 180);
          long = (if inputIsRadians then long else long * pi / 180);
          nu = spec_nu d lat
      in ((nu + H d) * cos lat * cos long,
          (nu + H d) * cos lat * sin long,
          ((1 - e2 d) * nu + H d) * sin lat))"

text \<open>
  The grid projection (section 4.5) on the OSGB36 datum, over the reals: the meridional
  radius of curvature, \<open>eta\<^sup>2 = nu / rho - 1\<close>, the four-term meridional arc, \<open>I\<close> as the
  false northing plus the arc scaled by \<open>b F_0\<close>, the terms \<open>II\<close> to \<open>VI\<close> of the
  Transverse Mercator expansion, and the two polynomials in the longitude difference.
\<close>

definition spec_rho :: "real \<Rightarrow> real" where
  "spec_rho lat =
     semi_a osgb36 * F_0 osgb36 * (1 - e2 osgb36) / (1 - e2 osgb36 * (sin lat)\<^sup>2) powr 1.5"

definition spec_eta2 :: "real \<Rightarrow> real" where
  "spec_eta2 lat = spec_nu osgb36 lat / spec_rho lat - 1"

definition spec_arc :: "real \<Rightarrow> real" where
  "spec_arc lat =
     (let n = flat_n osgb36; phi0 = phi_0 osgb36
      in (1 + n + 5 / 4 * n\<^sup>2 + 5 / 4 * n ^ 3) * (lat - phi0)
         - (3 * n + 3 * n\<^sup>2 + 21 / 8 * n ^ 3) * sin (lat - phi0) * cos (lat + phi0)
         + (15 / 8 * n\<^sup>2 + 15 / 8 * n ^ 3) * sin (2 * (lat - phi0)) * cos (2 * (lat + phi0))
         - 35 / 24 * n ^ 3 * sin (3 * (lat - phi0)) * cos (3 * (lat + phi0)))"

definition spec_I :: "real \<Rightarrow> real" where
  "spec_I lat = N_0 osgb36 + semi_b osgb36 * F_0 osgb36 * spec_arc lat"

definition spec_II :: "real \<Rightarrow> real" where
  "spec_II lat = spec_nu osgb36 lat / 2 * sin lat * cos lat"

definition spec_III :: "real \<Rightarrow> real" where
  "spec_III lat =
     spec_nu osgb36 lat / 24 * sin lat * (cos lat) ^ 3 * (5 - (tan lat)\<^sup>2 + 9 * spec_eta2 lat)"

definition spec_IIIA :: "real \<Rightarrow> real" where
  "spec_IIIA lat =
     spec_nu osgb36 lat / 720 * sin lat * (cos lat) ^ 5 * (61 - 58 * (tan lat)\<^sup>2 + (tan lat) ^ 4)"

definition spec_IV :: "real \<Rightarrow> real" where
  "spec_IV lat = spec_nu osgb36 lat * cos lat"

definition spec_V :: "real \<Rightarrow> real" where
  "spec_V lat =
     spec_nu osgb36 lat / 6 * (cos lat) ^ 3 * (spec_nu osgb36 lat / spec_rho lat - (tan lat)\<^sup>2)"

definition spec_VI :: "real \<Rightarrow> real" where
  "spec_VI lat =
     spec_nu osgb36 lat / 120 * (cos lat) ^ 5
       * (5 - 18 * (tan lat)\<^sup>2 + (tan lat) ^ 4 + 14 * spec_eta2 lat
          - 58 * (tan lat)\<^sup>2 * spec_eta2 lat)"

definition project :: "real \<Rightarrow> real \<Rightarrow> real \<times> real" where
  "project lat long =
     (let dl = long - lam_0 osgb36
      in (E_0 osgb36 + spec_IV lat * dl + spec_V lat * dl ^ 3 + spec_VI lat * dl ^ 5,
          spec_I lat + spec_II lat * dl\<^sup>2 + spec_III lat * dl ^ 4 + spec_IIIA lat * dl ^ 6))"

text \<open>
  The Newton step of section 4.2: the derivative of \<open>nu\<close> with respect to the latitude,
  the residual \<open>f0\<close>, and \<open>f1\<close> as the derivative of \<open>f0\<close>.
\<close>

definition spec_dnu :: "'m ellipsoid_scheme \<Rightarrow> real \<Rightarrow> real" where
  "spec_dnu d lat =
     semi_a d * F_0 d * e2 d * sin lat * cos lat / (1 - e2 d * (sin lat)\<^sup>2) powr 1.5"

definition spec_f0 :: "'m ellipsoid_scheme \<Rightarrow> real \<Rightarrow> real \<Rightarrow> real \<Rightarrow> real" where
  "spec_f0 d z p lat = (z + e2 d * spec_nu d lat * sin lat) / p - tan lat"

definition spec_f1 :: "'m ellipsoid_scheme \<Rightarrow> real \<Rightarrow> real \<Rightarrow> real" where
  "spec_f1 d p lat =
     e2 d * (spec_dnu d lat * sin lat + spec_nu d lat * cos lat) / p - 1 / (cos lat)\<^sup>2"

text \<open>The update \<open>lat \<leftarrow> lat - f0 / f1\<close> with that derivative.\<close>

definition spec_newton_step :: "'m ellipsoid_scheme \<Rightarrow> real \<Rightarrow> real \<Rightarrow> real \<Rightarrow> real" where
  "spec_newton_step d z p lat = lat - spec_f0 d z p lat / spec_f1 d p lat"

section \<open>Properties\<close>

subsection \<open>Construction of the module's constants\<close>

lemma osgb36_init:
  "Datum 6377563.396 6356256.910 0.9996012717 (rad 49 0 0) (rad (- 2) 0 0) 400000 (- 100000) 24.7
   = Inr osgb36"
  by (simp add: Datum_def Ellipsoid_def osgb36_def)

lemma wgs84_init: "Ellipsoid 6378137 6356752.3142 0.9996 = Inr wgs84"
  by (simp add: Ellipsoid_def wgs84_def)

lemma WGS84toOSGB36transform_init:
  "HelmertTransform (20.4894 / 1000000) (- rad 0 0 0.1502) (- rad 0 0 0.2470) (- rad 0 0 0.8421)
     (NDArray [3] [- 446.448, 125.157, - 542.060]) = Inr WGS84toOSGB36transform"
  by (simp add: HelmertTransform_def reshape_def WGS84toOSGB36transform_def)

subsection \<open>Arrays\<close>

lemma length_concat_rows:
  "length (concat (map (\<lambda>i. map (f i) [0..<k]) [0..<m])) = m * k"
  by (induction m) simp_all

lemma nth_concat_rows:
  "i < m \<Longrightarrow> j < k \<Longrightarrow> concat (map (\<lambda>i. map (f i) [0..<k]) [0..<m]) ! (i * k + j) = f i j"
proof (induction m)
  case 0
  then show ?case by simp
next
  case (Suc m)
  show ?case
  proof (cases "i < m")
    case True
    then have "i * k + j < m * k"
      using Suc.prems(2)
      by (metis Suc_leI add.commute mult.commute mult_Suc_right mult_le_mono2 nat_add_left_cancel_less order_less_le_trans)
    then show ?thesis
      using Suc.IH [OF True Suc.prems(2)]
      by (simp add: nth_append length_concat_rows)
  next
    case False
    then have "i = m" using Suc.prems(1) by simp
    then show ?thesis
      using Suc.prems(2) by (simp add: nth_append length_concat_rows)
  qed
qed

lemma shape_dot3: "shape (dot3 m X) = [3, shape X ! 1]"
  by (simp add: dot3_def Let_def)

lemma shape_add_column: "shape (add_column t Y) = [3, shape Y ! 1]"
  by (simp add: add_column_def Let_def)

lemma sum_list_upt3: "(\<Sum>l\<leftarrow>[0..<3]. g l) = g 0 + g 1 + (g 2 :: real)"
  by (simp add: upt_rec numeral_3_eq_3 numeral_2_eq_2)

lemma at2_dot3:
  assumes "i < 3" and "j < shape X ! 1"
  shows "at2 (dot3 m X) i j = m ! i ! 0 * at2 X 0 j + m ! i ! 1 * at2 X 1 j + m ! i ! 2 * at2 X 2 j"
proof -
  define k where "k = shape X ! 1"
  define f where "f = (\<lambda>i j. (\<Sum>l\<leftarrow>[0..<3]. m ! i ! l * at2 X l j))"
  have d: "dot3 m X = NDArray [3, k] (concat (map (\<lambda>i. map (f i) [0..<k]) [0..<3]))"
    unfolding dot3_def Let_def k_def f_def ..
  have "at2 (dot3 m X) i j = concat (map (\<lambda>i. map (f i) [0..<k]) [0..<3]) ! (i * k + j)"
    unfolding d at2_def by simp
  also have "\<dots> = f i j"
    using assms nth_concat_rows [of i 3 j k f] by (simp add: k_def)
  finally show ?thesis
    unfolding f_def sum_list_upt3 .
qed

lemma at2_add_column:
  assumes "i < 3" and "j < shape Y ! 1"
  shows "at2 (add_column t Y) i j = at2 t i 0 + at2 Y i j"
proof -
  define k where "k = shape Y ! 1"
  define f where "f = (\<lambda>i j. at2 t i 0 + at2 Y i j)"
  have d: "add_column t Y = NDArray [3, k] (concat (map (\<lambda>i. map (f i) [0..<k]) [0..<3]))"
    unfolding add_column_def Let_def k_def f_def ..
  have "at2 (add_column t Y) i j = concat (map (\<lambda>i. map (f i) [0..<k]) [0..<3]) ! (i * k + j)"
    unfolding d at2_def by simp
  also have "\<dots> = f i j"
    using assms nth_concat_rows [of i 3 j k f] by (simp add: k_def)
  finally show ?thesis
    unfolding f_def .
qed

lemma length_elems_add_column: "length (elems (add_column t Y)) = 3 * (shape Y ! 1)"
  by (simp add: add_column_def Let_def length_concat_rows del: upt.simps)

lemma lt3_cases: "i < (3::nat) \<Longrightarrow> i = 0 \<or> i = 1 \<or> i = 2"
  by arith

lemma concat_rows_id:
  assumes "length xs = m * k"
  shows "concat (map (\<lambda>i. map (\<lambda>j. xs ! (i * k + j)) [0..<k]) [0..<m]) = xs"
proof (rule nth_equalityI)
  show "length (concat (map (\<lambda>i. map (\<lambda>j. xs ! (i * k + j)) [0..<k]) [0..<m])) = length xs"
    using assms by (simp add: length_concat_rows)
next
  fix q
  assume "q < length (concat (map (\<lambda>i. map (\<lambda>j. xs ! (i * k + j)) [0..<k]) [0..<m]))"
  then have q: "q < m * k" by (simp add: length_concat_rows)
  then have k: "0 < k" by (cases k) simp_all
  have j: "q mod k < k" using k by simp
  have i: "q div k < m" using q k by (simp add: less_mult_imp_div_less)
  have "concat (map (\<lambda>i. map (\<lambda>j. xs ! (i * k + j)) [0..<k]) [0..<m]) ! (q div k * k + q mod k)
        = xs ! (q div k * k + q mod k)"
    by (rule nth_concat_rows [OF i j])
  then show "concat (map (\<lambda>i. map (\<lambda>j. xs ! (i * k + j)) [0..<k]) [0..<m]) ! q = xs ! q"
    by simp
qed

lemma call_on_rows:
  assumes "shape X = [3, N]" and "length (elems X) = 3 * N"
  shows "HelmertTransform_call h X = Inr (add_column (trans_T h) (dot3 (rot_M h) X))"
proof -
  have "reshape3 X = Inr (NDArray [3, N] (elems X))"
    using assms by (simp add: reshape3_def)
  also have "NDArray [3, N] (elems X) = X"
    using assms(1) by (cases X) simp
  finally show ?thesis by (simp add: HelmertTransform_call_def)
qed

lemma HelmertTransform_fields:
  assumes "HelmertTransform s rx ry rz t = Inr h"
  shows "rot_M h = [ [1 + s, - rz, ry], [rz, 1 + s, - rx], [- ry, rx, 1 + s]]"
    and "trans_T h = NDArray [3, 1] (elems t)"
    and "length (elems t) = 3"
  using assms by (auto simp add: HelmertTransform_def reshape_def split: if_splits)

lemma rot_M_entry:
  assumes "HelmertTransform s rx ry rz t = Inr h" and "i < 3" and "k < 3"
  shows "rot_M h ! i ! k = spec_I3 i k + spec_S s rx ry rz i k"
  using lt3_cases [OF assms(2)] lt3_cases [OF assms(3)]
  by (auto simp add: HelmertTransform_fields(1) [OF assms(1)] spec_I3_def spec_S_def)

lemma at2_call:
  assumes h: "HelmertTransform s rx ry rz t = Inr h"
    and X: "shape X = [3, N]" and i: "i < 3" and j: "j < N"
  shows "at2 (add_column (trans_T h) (dot3 (rot_M h) X)) i j =
         elems t ! i + (\<Sum>k\<leftarrow>[0..<3]. (spec_I3 i k + spec_S s rx ry rz i k) * at2 X k j)"
proof -
  have s1: "shape (dot3 (rot_M h) X) ! 1 = N"
    using X by (simp add: shape_dot3)
  have t: "at2 (trans_T h) i 0 = elems t ! i"
    by (simp add: HelmertTransform_fields(2) [OF h] at2_def)
  have "at2 (add_column (trans_T h) (dot3 (rot_M h) X)) i j =
        at2 (trans_T h) i 0 + at2 (dot3 (rot_M h) X) i j"
    using i j s1 by (simp add: at2_add_column)
  also have "at2 (dot3 (rot_M h) X) i j =
        rot_M h ! i ! 0 * at2 X 0 j + rot_M h ! i ! 1 * at2 X 1 j + rot_M h ! i ! 2 * at2 X 2 j"
    using i j X by (simp add: at2_dot3)
  finally show ?thesis
    using i by (simp add: t sum_list_upt3 rot_M_entry [OF h, symmetric])
qed

lemma identity_call:
  assumes h: "HelmertTransform 0 0 0 0 t = Inr h" and t: "elems t = [0, 0, 0]"
    and X: "shape X = [3, N]" and len: "length (elems X) = 3 * N"
  shows "add_column (trans_T h) (dot3 (rot_M h) X) = X"
proof -
  have m: "rot_M h = [ [1, 0, 0], [0, 1, 0], [0, 0, 1]]"
    using HelmertTransform_fields(1) [OF h] by simp
  have tt: "trans_T h = NDArray [3, 1] [0, 0, 0]"
    using HelmertTransform_fields(2) [OF h] t by simp
  have s1: "shape (dot3 (rot_M h) X) ! 1 = N"
    using X by (simp add: shape_dot3)
  have row: "map (\<lambda>j. at2 (trans_T h) i 0 + at2 (dot3 (rot_M h) X) i j) [0..<N]
           = map (\<lambda>j. elems X ! (i * N + j)) [0..<N]" if "i < 3" for i
  proof (rule map_cong [OF refl])
    fix j assume "j \<in> set [0..<N]"
    then have j: "j < N" by simp
    have "at2 (dot3 (rot_M h) X) i j =
        rot_M h ! i ! 0 * at2 X 0 j + rot_M h ! i ! 1 * at2 X 1 j + rot_M h ! i ! 2 * at2 X 2 j"
      using that j X by (simp add: at2_dot3)
    also have "\<dots> = at2 X i j"
      using lt3_cases [OF that] by (auto simp add: m)
    finally show "at2 (trans_T h) i 0 + at2 (dot3 (rot_M h) X) i j = elems X ! (i * N + j)"
      using lt3_cases [OF that] X by (auto simp add: tt at2_def)
  qed
  have "concat (map (\<lambda>i. map (\<lambda>j. at2 (trans_T h) i 0 + at2 (dot3 (rot_M h) X) i j) [0..<N]) [0..<3])
      = concat (map (\<lambda>i. map (\<lambda>j. elems X ! (i * N + j)) [0..<N]) [0..<3])"
    by (rule arg_cong [where f = concat], rule map_cong [OF refl]) (simp add: row)
  also have "\<dots> = elems X"
    by (rule concat_rows_id) (simp add: len)
  finally have "add_column (trans_T h) (dot3 (rot_M h) X) = NDArray [3, N] (elems X)"
    unfolding add_column_def Let_def s1 by simp
  then show ?thesis
    using X by (cases X) simp
qed

lemma bget_nth: "i < length xs \<Longrightarrow> bget xs i = xs ! i"
  by (auto simp add: bget_def)

lemma bget_single: "bget [v] i = v"
  by (simp add: bget_def)

lemma bshape_one: "bshape n (Suc 0) = Inr n" "bshape (Suc 0) n = Inr n"
  by (auto simp add: bshape_def)

lemma HelmertTransform_call_rows:
  assumes "length (elems X) mod 3 = 0"
  shows "\<exists>Y. HelmertTransform_call h X = Inr Y
           \<and> shape Y = [3, length (elems X) div 3]
           \<and> (\<forall>i<3. \<forall>j<length (elems X) div 3.
                 at2 Y i j = at2 (trans_T h) i 0
                   + (\<Sum>k\<leftarrow>[0..<3]. rot_M h ! i ! k * elems X ! (k * (length (elems X) div 3) + j)))"
proof -
  define N where "N = length (elems X) div 3"
  define X3 where "X3 = NDArray [3, N] (elems X)"
  define Y where "Y = add_column (trans_T h) (dot3 (rot_M h) X3)"
  have call: "HelmertTransform_call h X = Inr Y"
    using assms by (simp add: HelmertTransform_call_def reshape3_def Y_def X3_def N_def)
  have s3: "shape X3 ! 1 = N" by (simp add: X3_def)
  have sd: "shape (dot3 (rot_M h) X3) ! 1 = N" unfolding shape_dot3 s3 by simp
  have sh: "shape Y = [3, N]" unfolding Y_def shape_add_column sd ..
  have x3: "at2 X3 k j = elems X ! (k * N + j)" for k j
    by (simp add: at2_def X3_def)
  have ent: "at2 Y i j = at2 (trans_T h) i 0 + (\<Sum>k\<leftarrow>[0..<3]. rot_M h ! i ! k * elems X ! (k * N + j))"
    if i: "i < 3" and j: "j < N" for i j
  proof -
    have "at2 Y i j = at2 (trans_T h) i 0 + at2 (dot3 (rot_M h) X3) i j"
      unfolding Y_def using i j sd by (simp add: at2_add_column)
    also have "at2 (dot3 (rot_M h) X3) i j =
        rot_M h ! i ! 0 * at2 X3 0 j + rot_M h ! i ! 1 * at2 X3 1 j + rot_M h ! i ! 2 * at2 X3 2 j"
      using i j s3 by (simp add: at2_dot3)
    finally show ?thesis
      by (simp add: sum_list_upt3 x3)
  qed
  show ?thesis
    unfolding N_def [symmetric] using call sh ent by blast
qed

lemma lat_long_to_xyz_arr_elementwise:
  assumes "length lats = length longs"
  shows "lat_long_to_xyz_arr lats longs radians d =
           Inr (map2 (\<lambda>lat long. lat_long_to_xyz lat long radians d) lats longs)"
proof -
  have "map (\<lambda>i. lat_long_to_xyz (bget lats i) (bget longs i) radians d) [0..<length longs]
      = map2 (\<lambda>lat long. lat_long_to_xyz lat long radians d) lats longs"
    by (rule nth_equalityI) (use assms in \<open>simp_all add: bget_nth\<close>)
  then show ?thesis
    using assms by (simp add: lat_long_to_xyz_arr_def bshape_def)
qed

lemma lat_long_to_xyz_arr_broadcast:
  "lat_long_to_xyz_arr lats [g] radians d = Inr (map (\<lambda>lat. lat_long_to_xyz lat g radians d) lats)"
proof -
  have "map (\<lambda>i. lat_long_to_xyz (bget lats i) (bget [g] i) radians d) [0..<length lats]
      = map (\<lambda>lat. lat_long_to_xyz lat g radians d) lats"
    by (rule nth_equalityI) (simp_all add: bget_nth bget_single)
  then show ?thesis
    by (simp add: lat_long_to_xyz_arr_def bshape_one)
qed

lemma xyz_longitude_independent:
  "snd (xyz_to_lat_long x y z radians d) = snd (xyz_to_lat_long x y z' radians d)"
  by (simp add: xyz_to_lat_long_def Let_def)

lemma xyz_to_lat_long_arr_elementwise:
  assumes "length x = length y" and "length y = length z"
  shows "xyz_to_lat_long_arr x y z radians d =
           Inr (map (\<lambda>i. fst (xyz_to_lat_long (x ! i) (y ! i) (z ! i) radians d)) [0..<length x],
                map (\<lambda>i. snd (xyz_to_lat_long (x ! i) (y ! i) (z ! i) radians d)) [0..<length x])"
proof -
  have g: "bget x i = x ! i" "bget y i = y ! i" "bget z i = z ! i" if "i < length x" for i
    using that assms by (simp_all add: bget_nth)
  have a: "map (\<lambda>i. fst (xyz_to_lat_long (bget x i) (bget y i) (bget z i) radians d)) [0..<length x]
         = map (\<lambda>i. fst (xyz_to_lat_long (x ! i) (y ! i) (z ! i) radians d)) [0..<length x]"
    by (rule map_cong [OF refl]) (simp add: g)
  have b: "map (\<lambda>i. snd (xyz_to_lat_long (bget x i) (bget y i) 0 radians d)) [0..<length x]
         = map (\<lambda>i. snd (xyz_to_lat_long (x ! i) (y ! i) (z ! i) radians d)) [0..<length x]"
    by (rule map_cong [OF refl])
      (simp add: g xyz_longitude_independent [where z = 0 and z' = "z ! _"])
  have k: "bshape (length x) (length y) = Inr (length x)"
    "bshape (length z) (length x) = Inr (length x)"
    using assms by (simp_all add: bshape_def)
  show ?thesis
    unfolding xyz_to_lat_long_arr_def k sum.case a b ..
qed

lemma xyz_to_lat_long_arr_broadcast:
  "xyz_to_lat_long_arr x [b] [c] radians d =
     Inr (map (\<lambda>a. fst (xyz_to_lat_long a b c radians d)) x,
          map (\<lambda>a. snd (xyz_to_lat_long a b c radians d)) x)"
proof -
  have a: "map (\<lambda>i. fst (xyz_to_lat_long (bget x i) (bget [b] i) (bget [c] i) radians d)) [0..<length x]
         = map (\<lambda>a. fst (xyz_to_lat_long a b c radians d)) x"
    by (rule nth_equalityI) (simp_all add: bget_nth bget_single)
  have b: "map (\<lambda>i. snd (xyz_to_lat_long (bget x i) (bget [b] i) 0 radians d)) [0..<length x]
         = map (\<lambda>a. snd (xyz_to_lat_long a b c radians d)) x"
    by (rule nth_equalityI)
      (simp_all add: bget_nth bget_single xyz_longitude_independent [where z = 0 and z' = c])
  show ?thesis
    by (simp add: xyz_to_lat_long_arr_def bshape_one a b)
qed

lemma lat_long_to_xyz_arr_mismatch:
  assumes "shape_mismatch (length lats) (length longs)"
  shows "lat_long_to_xyz_arr lats longs radians d = Inl ValueError"
  using assms by (simp add: lat_long_to_xyz_arr_def bshape_def shape_mismatch_def)

lemma xyz_to_lat_long_arr_Inl:
  "xyz_to_lat_long_arr x y z radians d = Inl ValueError \<longleftrightarrow>
     shape_mismatch (length x) (length y) \<or> shape_mismatch (length x) (length z)
       \<or> shape_mismatch (length y) (length z)"
  by (auto simp add: xyz_to_lat_long_arr_def bshape_def shape_mismatch_def)

lemma HelmertTransform_call_Inl:
  "HelmertTransform_call h X = Inl ValueError \<longleftrightarrow> length (elems X) mod 3 \<noteq> 0"
  by (simp add: HelmertTransform_call_def reshape3_def)

lemma upt_0_3: "[0..<3] = [0, 1, 2]"
  by (simp add: upt_rec numeral_3_eq_3)

lemma upt_0_2: "[0..<2] = [0, 1]"
  by (simp add: upt_rec numeral_2_eq_2)

subsection \<open>Datum composition\<close>

text \<open>
  C1. Step 1 of the datum composition converts with the source ellipsoid: the Cartesian
  point handed to the Helmert transform is \<open>lat_long_to_xyz\<close> on \<open>wgs84\<close>. The code omits
  the \<open>datum\<close> argument and so converts on \<open>osgb36\<close>: at latitude 0, longitude 0 (radians)
  it hands over \<open>x = 6377563.396 * 0.9996012717 + 24.7\<close>, not \<open>6378137 * 0.9996\<close>.
\<close>

theorem WGS84toOSGB36_source_ellipsoid:
  "WGS84toOSGB36_xyz 0 0 True = Some (6377563.396 * 0.9996012717 + 24.7, 0, 0)
   \<and> lat_long_to_xyz 0 0 True wgs84 = Some (6378137 * 0.9996, 0, 0)
   \<and> WGS84toOSGB36_xyz 0 0 True \<noteq> lat_long_to_xyz 0 0 True wgs84"
  by (simp add: WGS84toOSGB36_xyz_def lat_long_to_xyz_def fsqrt_def fdiv_def wgs84_def osgb36_def)

subsection \<open>Helmert transform\<close>

text \<open>
  C7. A transform built from \<open>s, rx, ry, rz, T\<close> has the rotation matrix \<open>I + S\<close>; applied
  to a 3-by-N point set it returns a 3-by-N array whose entry \<open>(i, j)\<close> is
  \<open>T i + (\<Sum>k. (I + S) i k * X k j)\<close>; with all seven parameters zero the point set is
  returned unchanged.
\<close>

theorem HelmertTransform_apply:
  assumes "HelmertTransform s rx ry rz t = Inr h"
    and "shape X = [3, N]" and "length (elems X) = 3 * N"
  shows "(\<forall>i<3. \<forall>k<3. rot_M h ! i ! k = spec_I3 i k + spec_S s rx ry rz i k)
       \<and> (\<exists>Y. HelmertTransform_call h X = Inr Y \<and> shape Y = [3, N]
             \<and> (\<forall>i<3. \<forall>j<N. at2 Y i j =
                   elems t ! i + (\<Sum>k\<leftarrow>[0..<3]. (spec_I3 i k + spec_S s rx ry rz i k) * at2 X k j)))
       \<and> (s = 0 \<and> rx = 0 \<and> ry = 0 \<and> rz = 0 \<and> elems t = [0, 0, 0]
             \<longrightarrow> HelmertTransform_call h X = Inr X)"
proof (intro conjI)
  show "\<forall>i<3. \<forall>k<3. rot_M h ! i ! k = spec_I3 i k + spec_S s rx ry rz i k"
    using rot_M_entry [OF assms(1)] by blast
next
  have "shape (add_column (trans_T h) (dot3 (rot_M h) X)) = [3, N]"
    using assms(2) by (simp add: shape_add_column shape_dot3)
  then show "\<exists>Y. HelmertTransform_call h X = Inr Y \<and> shape Y = [3, N]
             \<and> (\<forall>i<3. \<forall>j<N. at2 Y i j =
                   elems t ! i + (\<Sum>k\<leftarrow>[0..<3]. (spec_I3 i k + spec_S s rx ry rz i k) * at2 X k j))"
    using call_on_rows [OF assms(2,3), of h] at2_call [OF assms(1,2)] by blast
next
  show "s = 0 \<and> rx = 0 \<and> ry = 0 \<and> rz = 0 \<and> elems t = [0, 0, 0]
             \<longrightarrow> HelmertTransform_call h X = Inr X"
    using call_on_rows [OF assms(2,3), of h] identity_call [OF _ _ assms(2,3), of t h] assms(1)
    by auto
qed

theorem HelmertTransform_apply_witness:
  "HelmertTransform_call \<lparr> trans_T = NDArray [3, 1] [0, 0, 0],
                            rot_M = [ [1, 0, 0], [0, 1, 0], [0, 0, 1]] \<rparr>
     (NDArray [3, 2] [1, 2, 3, 4, 5, 6]) = Inr (NDArray [3, 2] [1, 2, 3, 4, 5, 6])"
  using HelmertTransform_apply [of 0 0 0 0 "NDArray [3] [0, 0, 0]"
      "\<lparr> trans_T = NDArray [3, 1] [0, 0, 0], rot_M = [ [1, 0, 0], [0, 1, 0], [0, 0, 1]] \<rparr>"
      "NDArray [3, 2] [1, 2, 3, 4, 5, 6]" 2]
  by (simp add: HelmertTransform_def reshape_def)

text \<open>
  C9. Applied to any array whose element count is a multiple of 3, the transform does not
  raise: the elements are laid out in 3 rows and the result has shape 3-by-N with as many
  elements as the input. A flat vector of three elements comes back as a 3-by-1 column, not
  in its own shape.
\<close>

theorem HelmertTransform_call_reshapes:
  assumes "HelmertTransform s rx ry rz t = Inr h" and "length (elems X) mod 3 = 0"
  shows "(\<exists>Y. HelmertTransform_call h X = Inr Y
              \<and> shape Y = [3, length (elems X) div 3]
              \<and> length (elems Y) = length (elems X))
       \<and> (\<exists>Y. HelmertTransform_call h (NDArray [3] [x, y, z]) = Inr Y
              \<and> shape Y = [3, 1] \<and> shape Y \<noteq> shape (NDArray [3] [x, y, z]))"
proof -
  have "HelmertTransform_call h X =
          Inr (add_column (trans_T h) (dot3 (rot_M h) (NDArray [3, length (elems X) div 3] (elems X))))"
    using assms(2) by (simp add: HelmertTransform_call_def reshape3_def)
  moreover have "HelmertTransform_call h (NDArray [3] [x, y, z]) =
          Inr (add_column (trans_T h) (dot3 (rot_M h) (NDArray [3, 1] [x, y, z])))"
    by (simp add: HelmertTransform_call_def reshape3_def)
  moreover have "3 * (length (elems X) div 3) = length (elems X)"
    using assms(2) by presburger
  ultimately show ?thesis
    by (simp add: shape_add_column shape_dot3 length_elems_add_column)
qed

theorem HelmertTransform_call_reshapes_witness:
  "\<exists>Y. HelmertTransform_call WGS84toOSGB36transform (NDArray [6] [1, 2, 3, 4, 5, 6]) = Inr Y
       \<and> shape Y = [3, 2] \<and> length (elems Y) = 6"
proof -
  have h: "HelmertTransform (20.4894 / 1000000) (- rad 0 0 0.1502) (- rad 0 0 0.2470)
             (- rad 0 0 0.8421) (NDArray [3] [- 446.448, 125.157, - 542.060])
           = Inr WGS84toOSGB36transform"
    by (simp add: HelmertTransform_def reshape_def WGS84toOSGB36transform_def)
  have m: "length (elems (NDArray [6] [1, 2, 3, 4, 5, 6])) mod 3 = 0"
    by simp
  have d: "(6::nat) div 3 = 2"
    by simp
  have l: "length (elems (NDArray [6] [1, 2, 3, 4, 5, 6 :: real])) = 6"
    by simp
  from HelmertTransform_call_reshapes [OF h m, THEN conjunct1]
  show ?thesis unfolding l d .
qed

text \<open>
  C3, as stated: a point set that is not exactly 3 rows is rejected, never reshaped into an
  accepted shape. It fails: two points given as the rows of a 2-by-3 array are accepted,
  and the six numbers are read as three rows of two.
\<close>

theorem shape_mismatch_counterexample:
  "HelmertTransform_call \<lparr> trans_T = NDArray [3, 1] [0, 0, 0],
                            rot_M = [ [1, 0, 0], [0, 1, 0], [0, 0, 1]] \<rparr>
     (NDArray [2, 3] [1, 2, 3, 4, 5, 6]) = Inr (NDArray [3, 2] [1, 2, 3, 4, 5, 6])"
  by (simp add: HelmertTransform_call_def reshape3_def add_column_def dot3_def at2_def Let_def
      upt_0_3 upt_0_2 del: upt.simps)

text \<open>
  C3, amended. The transform rejects an input exactly when its element count is not a
  multiple of 3. Every other input, of \<open>3 N\<close> elements and whatever its shape, is read in
  row-major order as 3 rows of \<open>N\<close>: the result is the 3-by-N array with entry \<open>(i, j)\<close>
  equal to \<open>T i + (\<Sum>k. M i k * e (k * N + j))\<close>, \<open>e\<close> the elements of the input in order.
  \<open>lat_long_to_xyz\<close> converts latitude and longitude arrays of equal length index by
  index, uses a longitude array of length 1 with every latitude, and rejects two lengths
  that differ when neither is 1. \<open>xyz_to_lat_long\<close> rejects exactly when two of its three
  arrays have lengths that differ with neither being 1; it converts arrays of equal length
  index by index, and uses \<open>y\<close> and \<open>z\<close> arrays of length 1 with every \<open>x\<close>.
\<close>

theorem shape_checks:
  "(HelmertTransform_call h X = Inl ValueError \<longleftrightarrow> length (elems X) mod 3 \<noteq> 0)
   \<and> (length (elems X) mod 3 = 0 \<longrightarrow>
        (\<exists>Y. HelmertTransform_call h X = Inr Y
            \<and> shape Y = [3, length (elems X) div 3]
            \<and> (\<forall>i<3. \<forall>j<length (elems X) div 3.
                  at2 Y i j = at2 (trans_T h) i 0
                    + (\<Sum>k\<leftarrow>[0..<3]. rot_M h ! i ! k * elems X ! (k * (length (elems X) div 3) + j)))))
   \<and> (length lats = length longs \<longrightarrow>
        lat_long_to_xyz_arr lats longs radians d =
          Inr (map2 (\<lambda>lat long. lat_long_to_xyz lat long radians d) lats longs))
   \<and> lat_long_to_xyz_arr lats [g] radians d =
        Inr (map (\<lambda>lat. lat_long_to_xyz lat g radians d) lats)
   \<and> (shape_mismatch (length lats) (length longs) \<longrightarrow>
        lat_long_to_xyz_arr lats longs radians d = Inl ValueError)
   \<and> (xyz_to_lat_long_arr x y z radians d = Inl ValueError \<longleftrightarrow>
        shape_mismatch (length x) (length y) \<or> shape_mismatch (length x) (length z)
          \<or> shape_mismatch (length y) (length z))
   \<and> (length x = length y \<and> length y = length z \<longrightarrow>
        xyz_to_lat_long_arr x y z radians d =
          Inr (map (\<lambda>i. fst (xyz_to_lat_long (x ! i) (y ! i) (z ! i) radians d)) [0..<length x],
               map (\<lambda>i. snd (xyz_to_lat_long (x ! i) (y ! i) (z ! i) radians d)) [0..<length x]))
   \<and> xyz_to_lat_long_arr x [b] [c] radians d =
        Inr (map (\<lambda>a. fst (xyz_to_lat_long a b c radians d)) x,
             map (\<lambda>a. snd (xyz_to_lat_long a b c radians d)) x)"
proof (intro conjI impI)
  show "HelmertTransform_call h X = Inl ValueError \<longleftrightarrow> length (elems X) mod 3 \<noteq> 0"
    by (rule HelmertTransform_call_Inl)
next
  assume "length (elems X) mod 3 = 0"
  then show "\<exists>Y. HelmertTransform_call h X = Inr Y
            \<and> shape Y = [3, length (elems X) div 3]
            \<and> (\<forall>i<3. \<forall>j<length (elems X) div 3.
                  at2 Y i j = at2 (trans_T h) i 0
                    + (\<Sum>k\<leftarrow>[0..<3]. rot_M h ! i ! k * elems X ! (k * (length (elems X) div 3) + j)))"
    by (rule HelmertTransform_call_rows)
next
  assume "length lats = length longs"
  then show "lat_long_to_xyz_arr lats longs radians d =
          Inr (map2 (\<lambda>lat long. lat_long_to_xyz lat long radians d) lats longs)"
    by (rule lat_long_to_xyz_arr_elementwise)
next
  show "lat_long_to_xyz_arr lats [g] radians d =
        Inr (map (\<lambda>lat. lat_long_to_xyz lat g radians d) lats)"
    by (rule lat_long_to_xyz_arr_broadcast)
next
  assume "shape_mismatch (length lats) (length longs)"
  then show "lat_long_to_xyz_arr lats longs radians d = Inl ValueError"
    by (rule lat_long_to_xyz_arr_mismatch)
next
  show "xyz_to_lat_long_arr x y z radians d = Inl ValueError \<longleftrightarrow>
        shape_mismatch (length x) (length y) \<or> shape_mismatch (length x) (length z)
          \<or> shape_mismatch (length y) (length z)"
    by (rule xyz_to_lat_long_arr_Inl)
next
  assume "length x = length y \<and> length y = length z"
  then show "xyz_to_lat_long_arr x y z radians d =
          Inr (map (\<lambda>i. fst (xyz_to_lat_long (x ! i) (y ! i) (z ! i) radians d)) [0..<length x],
               map (\<lambda>i. snd (xyz_to_lat_long (x ! i) (y ! i) (z ! i) radians d)) [0..<length x])"
    by (simp add: xyz_to_lat_long_arr_elementwise)
next
  show "xyz_to_lat_long_arr x [b] [c] radians d =
        Inr (map (\<lambda>a. fst (xyz_to_lat_long a b c radians d)) x,
             map (\<lambda>a. snd (xyz_to_lat_long a b c radians d)) x)"
    by (rule xyz_to_lat_long_arr_broadcast)
qed

theorem shape_checks_witness:
  "lat_long_to_xyz_arr [0, 0, 0] [0, 0] True osgb36 = Inl ValueError
   \<and> lat_long_to_xyz_arr [0, 0] [0] True wgs84
       = Inr [Some (6378137 * 0.9996, 0, 0), Some (6378137 * 0.9996, 0, 0)]
   \<and> xyz_to_lat_long_arr [1, 1] [0, 0] [0, 0, 0] True osgb36 = Inl ValueError
   \<and> HelmertTransform_call WGS84toOSGB36transform (NDArray [2, 2] [1, 2, 3, 4]) = Inl ValueError
   \<and> (\<exists>Y. HelmertTransform_call WGS84toOSGB36transform (NDArray [2, 3] [1, 2, 3, 4, 5, 6]) = Inr Y
         \<and> shape Y = [3, 2])"
proof -
  note a = shape_checks [where h = WGS84toOSGB36transform and X = "NDArray [2, 2] [1, 2, 3, 4]"
      and lats = "[0, 0, 0]" and longs = "[0, 0]" and radians = True and d = osgb36
      and x = "[1, 1]" and y = "[0, 0]" and z = "[0, 0, 0]" and g = 0 and b = 0 and c = 0]
  note b = shape_checks [where h = WGS84toOSGB36transform
      and X = "NDArray [2, 3] [1, 2, 3, 4, 5, 6]"
      and lats = "[0, 0]" and longs = "[0]" and radians = True and d = wgs84
      and x = "[1, 1]" and y = "[0, 0]" and z = "[0, 0, 0]" and g = 0 and b = 0 and c = 0]
  have 1: "lat_long_to_xyz_arr [0, 0, 0] [0, 0] True osgb36 = Inl ValueError"
    using a by (simp add: shape_mismatch_def)
  have 2: "lat_long_to_xyz_arr [0, 0] [0] True wgs84
       = Inr [Some (6378137 * 0.9996, 0, 0), Some (6378137 * 0.9996, 0, 0)]"
    using b by (simp add: lat_long_to_xyz_def fsqrt_def fdiv_def wgs84_def)
  have 3: "xyz_to_lat_long_arr [1, 1] [0, 0] [0, 0, 0] True osgb36 = Inl ValueError"
    using a by (simp add: shape_mismatch_def)
  have 4: "HelmertTransform_call WGS84toOSGB36transform (NDArray [2, 2] [1, 2, 3, 4]) = Inl ValueError"
    using a by simp
  have m: "length (elems (NDArray [2, 3] [1, 2, 3, 4, 5, 6 :: real])) mod 3 = 0" by simp
  have dv: "length (elems (NDArray [2, 3] [1, 2, 3, 4, 5, 6 :: real])) div 3 = 2" by simp
  have 5: "\<exists>Y. HelmertTransform_call WGS84toOSGB36transform (NDArray [2, 3] [1, 2, 3, 4, 5, 6]) = Inr Y
         \<and> shape Y = [3, 2]"
    using b [THEN conjunct2, THEN conjunct1, rule_format, OF m] unfolding dv by blast
  show ?thesis using 1 2 3 4 5 by blast
qed

subsection \<open>The fixed iteration count\<close>

lemma upt_0_6: "[0..<6] = [0, 1, 2, 3, 4, 5]"
  by code_simp

lemma length_newton_trace: "length (newton_trace d z p rng l) = length rng"
  by (induction rng arbitrary: l) simp_all

lemma newton_loop_last_trace:
  "newton_loop d z p rng l = last (l # newton_trace d z p rng l)"
  by (induction rng arbitrary: l) simp_all

text \<open>
  C8. \<open>xyz_to_lat_long\<close> makes exactly 6 correction steps on every input: the instrumented
  loop records 6 latitudes, the last of which is the one returned, and the returned
  latitude is the step applied 6 times to the first guess, with no test in between.
\<close>

theorem xyz_to_lat_long_six_steps:
  "length (xyz_to_lat_long_trace x y z d) = 6
   \<and> fst (xyz_to_lat_long x y z True d) = last (xyz_to_lat_long_trace x y z d)
   \<and> fst (xyz_to_lat_long x y z True d) =
       (let p = sqrt (x\<^sup>2 + y\<^sup>2); step = newton_step d z p
        in Some (arctan2 z (p * (1 - e2 d)))
             \<bind> step \<bind> step \<bind> step \<bind> step \<bind> step \<bind> step)
   \<and> fst (xyz_to_lat_long x y z False d) = map_option deg (fst (xyz_to_lat_long x y z True d))"
proof (intro conjI)
  show "length (xyz_to_lat_long_trace x y z d) = 6"
    by (simp add: xyz_to_lat_long_trace_def Let_def length_newton_trace)
next
  have "newton_trace d z (sqrt (x\<^sup>2 + y\<^sup>2)) [0..<6] (Some (arctan2 z (sqrt (x\<^sup>2 + y\<^sup>2) * (1 - e2 d)))) \<noteq> []"
    unfolding upt_0_6 by simp
  then show "fst (xyz_to_lat_long x y z True d) = last (xyz_to_lat_long_trace x y z d)"
    by (simp add: xyz_to_lat_long_def xyz_to_lat_long_trace_def Let_def newton_loop_last_trace)
next
  show "fst (xyz_to_lat_long x y z True d) =
       (let p = sqrt (x\<^sup>2 + y\<^sup>2); step = newton_step d z p
        in Some (arctan2 z (p * (1 - e2 d)))
             \<bind> step \<bind> step \<bind> step \<bind> step \<bind> step \<bind> step)"
    unfolding xyz_to_lat_long_def Let_def upt_0_6 by simp
next
  show "fst (xyz_to_lat_long x y z False d) = map_option deg (fst (xyz_to_lat_long x y z True d))"
    by (simp add: xyz_to_lat_long_def Let_def)
qed

subsection \<open>Degrees, minutes and seconds\<close>

lemma rint_cases:
  "rint t = \<lfloor>t + 1 / 2\<rfloor> \<or> (rint t = \<lfloor>t + 1 / 2\<rfloor> - 1 \<and> of_int \<lfloor>t + 1 / 2\<rfloor> = t + 1 / 2
      \<and> odd \<lfloor>t + 1 / 2\<rfloor>)"
  unfolding rint_def Let_def by simp

lemma rint_close: "\<bar>of_int (rint t) - t\<bar> \<le> 1 / 2"
proof -
  have a: "of_int \<lfloor>t + 1 / 2\<rfloor> \<le> t + 1 / 2" by (rule of_int_floor_le)
  have b: "t + 1 / 2 < of_int \<lfloor>t + 1 / 2\<rfloor> + 1" by linarith
  from rint_cases [of t] show ?thesis
  proof
    assume "rint t = \<lfloor>t + 1 / 2\<rfloor>"
    then have "of_int (rint t) \<le> t + 1 / 2" and "t + 1 / 2 < of_int (rint t) + 1"
      using a b by simp_all
    then show ?thesis by linarith
  next
    assume "rint t = \<lfloor>t + 1 / 2\<rfloor> - 1 \<and> of_int \<lfloor>t + 1 / 2\<rfloor> = t + 1 / 2 \<and> odd \<lfloor>t + 1 / 2\<rfloor>"
    then have r: "rint t = \<lfloor>t + 1 / 2\<rfloor> - 1"
      and e: "of_int \<lfloor>t + 1 / 2\<rfloor> = t + 1 / 2" by blast+
    have "of_int (rint t) = (of_int \<lfloor>t + 1 / 2\<rfloor> :: real) - 1"
      unfolding r by simp
    then show ?thesis unfolding e by linarith
  qed
qed

lemma rint_nonneg:
  assumes "0 \<le> t"
  shows "0 \<le> rint t"
proof -
  have f: "0 \<le> \<lfloor>t + 1 / 2\<rfloor>" using assms by simp
  from rint_cases [of t] show ?thesis
  proof
    assume "rint t = \<lfloor>t + 1 / 2\<rfloor>"
    then show ?thesis using f by simp
  next
    assume c: "rint t = \<lfloor>t + 1 / 2\<rfloor> - 1 \<and> of_int \<lfloor>t + 1 / 2\<rfloor> = t + 1 / 2 \<and> odd \<lfloor>t + 1 / 2\<rfloor>"
    then have "\<lfloor>t + 1 / 2\<rfloor> \<noteq> 0" by auto
    then have "1 \<le> \<lfloor>t + 1 / 2\<rfloor>" using f by linarith
    then show ?thesis using c by linarith
  qed
qed

lemma fmod1_range: "0 \<le> fmod1 x \<and> fmod1 x < 1"
  unfolding fmod1_def by linarith

lemma round4_close: "\<bar>round4 v - v\<bar> \<le> 5 / 100000"
proof -
  have "\<bar>of_int (rint (v * 10000)) - v * 10000\<bar> \<le> 1 / 2" by (rule rint_close)
  then show ?thesis unfolding round4_def by (simp add: abs_le_iff field_simps)
qed

lemma round4_nonneg: "0 \<le> v \<Longrightarrow> 0 \<le> round4 v"
  unfolding round4_def using rint_nonneg [of "v * 10000"] by simp

lemma round4_le_60:
  assumes "v < 60"
  shows "round4 v \<le> 60"
proof -
  have "of_int (rint (v * 10000)) \<le> v * 10000 + 1 / 2"
    using rint_close [of "v * 10000"] by linarith
  also have "\<dots> < 600000 + 1 / 2" using assms by simp
  finally have "rint (v * 10000) < 600001" by linarith
  then have "rint (v * 10000) \<le> 600000" by simp
  then have "(of_int (rint (v * 10000)) :: real) \<le> 600000" by linarith
  then show ?thesis unfolding round4_def by simp
qed

text \<open>
  C10. The decomposition into degrees, minutes and seconds reconstructs its input, also
  for negative angles: the degrees are the floor of \<open>x * 180 / pi\<close> (one below the integer
  part for a negative fractional value), minutes and seconds are never negative, and
  \<open>d + m / 60 + s / 3600\<close> differs from \<open>x * 180 / pi\<close> by at most the rounding of the
  seconds to 4 decimals.
\<close>

theorem deg_dms_reconstructs:
  assumes "deg_dms x = (d, m, s)"
  shows "d = of_int \<lfloor>x * 180 / pi\<rfloor>
       \<and> 0 \<le> m \<and> m < 60 \<and> 0 \<le> s \<and> s \<le> 60
       \<and> \<bar>d + m / 60 + s / 3600 - x * 180 / pi\<bar> \<le> (5 / 100000) / 3600
       \<and> (x < 0 \<and> x * 180 / pi \<notin> \<int> \<longrightarrow> d = of_int \<lceil>x * 180 / pi\<rceil> - 1)"
proof -
  define v where "v = x * (180 / pi)"
  define mm where "mm = 60 * fmod1 v"
  have d: "d = of_int \<lfloor>v\<rfloor>" and m: "m = of_int \<lfloor>mm\<rfloor>" and s: "s = round4 (60 * fmod1 mm)"
    using assms by (simp_all add: deg_dms_def Let_def v_def mm_def)
  have vx: "v = x * 180 / pi" by (simp add: v_def)
  have mm_range: "0 \<le> mm" "mm < 60"
    using fmod1_range [of v] by (simp_all add: mm_def)
  have m_range: "0 \<le> m" "m < 60"
  proof -
    show "0 \<le> m" using mm_range(1) by (simp add: m)
    have "\<lfloor>mm\<rfloor> < 60" using mm_range(2) by (simp add: floor_less_iff)
    then show "m < 60" unfolding m by linarith
  qed
  have s_range: "0 \<le> s" "s \<le> 60"
    using fmod1_range [of mm] by (simp_all add: s round4_nonneg round4_le_60)
  have exact: "of_int \<lfloor>v\<rfloor> + of_int \<lfloor>mm\<rfloor> / 60 + (60 * fmod1 mm) / 3600 = v"
    by (simp add: fmod1_def mm_def field_simps)
  have "\<bar>d + m / 60 + s / 3600 - v\<bar> = \<bar>s - 60 * fmod1 mm\<bar> / 3600"
    using exact by (simp add: d m field_simps)
  also have "\<dots> \<le> (5 / 100000) / 3600"
    using round4_close [of "60 * fmod1 mm"] by (simp add: s)
  finally have err: "\<bar>d + m / 60 + s / 3600 - v\<bar> \<le> (5 / 100000) / 3600" .
  have neg: "d = of_int \<lceil>v\<rceil> - 1" if "v \<notin> \<int>"
  proof -
    have "v \<noteq> of_int \<lfloor>v\<rfloor>" using that Ints_of_int by metis
    then have "\<lceil>v\<rceil> = \<lfloor>v\<rfloor> + 1" by (simp add: ceiling_altdef)
    then show ?thesis by (simp add: d)
  qed
  show ?thesis
    using d m_range s_range err neg unfolding vx by simp
qed

theorem deg_dms_reconstructs_witness:
  "deg_dms (- pi / 360) = (- 1, 30, 0)
   \<and> \<bar>(- 1 :: real) + 30 / 60 + 0 / 3600 - (- pi / 360) * 180 / pi\<bar> \<le> (5 / 100000) / 3600"
proof -
  have e: "deg_dms (- pi / 360) = (- 1, 30, 0)"
    by (simp add: deg_dms_def fmod1_def round4_def rint_def Let_def)
  from deg_dms_reconstructs [OF e] show ?thesis using e by simp
qed

subsection \<open>Geographic to Cartesian\<close>

lemma e2_osgb36: "0 < e2 osgb36" "e2 osgb36 < 1"
  by (simp_all add: osgb36_def power2_eq_square)

lemma e2_wgs84: "0 < e2 wgs84" "e2 wgs84 < 1"
  by (simp_all add: wgs84_def power2_eq_square)

lemma e2_Ellipsoid:
  assumes "Ellipsoid a b f = Inr el" and "b \<noteq> 0"
  shows "e2 el < 1"
proof -
  have a: "a \<noteq> 0" and e: "e2 el = (a\<^sup>2 - b\<^sup>2) / a\<^sup>2"
    using assms(1) by (auto simp add: Ellipsoid_def split: if_splits)
  have "e2 el = 1 - b\<^sup>2 / a\<^sup>2"
    using a by (simp add: e diff_divide_distrib)
  moreover have "0 < b\<^sup>2 / a\<^sup>2"
    using a assms(2) by simp
  ultimately show ?thesis by simp
qed

lemma radicand_pos:
  assumes "e2 d < 1"
  shows "0 < 1 - e2 d * (sin l)\<^sup>2"
proof (cases "0 \<le> e2 d")
  case True
  have "(sin l)\<^sup>2 \<le> 1" by (simp add: abs_square_le_1)
  then have "e2 d * (sin l)\<^sup>2 \<le> e2 d * 1"
    using True by (rule mult_left_mono)
  then show ?thesis using assms by simp
next
  case False
  then have "e2 d * (sin l)\<^sup>2 \<le> 0"
    by (simp add: mult_le_0_iff)
  then show ?thesis by simp
qed

lemma newton_nu_Some:
  assumes "e2 d < 1"
  shows "newton_nu d l = Some (spec_nu d l)"
  using radicand_pos [OF assms, of l]
  by (simp add: newton_nu_def fsqrt_def fdiv_def spec_nu_def)

lemma lat_long_to_xyz_closed_form:
  assumes "e2 d < 1"
  shows "lat_long_to_xyz lat long radians d = Some (geographicToCartesian lat long d radians)"
proof -
  have pos: "0 < 1 - e2 d * (sin l)\<^sup>2" for l
    by (rule radicand_pos [OF assms])
  have r: "fsqrt (1 - e2 d * (sin l)\<^sup>2) = Some (sqrt (1 - e2 d * (sin l)\<^sup>2))" for l
    using pos [of l] by (simp add: fsqrt_def)
  have nz: "sqrt (1 - e2 d * (sin l)\<^sup>2) \<noteq> 0" for l
    using pos [of l] by (metis less_irrefl real_sqrt_eq_zero_cancel_iff)
  have dv: "fdiv x (sqrt (1 - e2 d * (sin l)\<^sup>2)) = Some (x / sqrt (1 - e2 d * (sin l)\<^sup>2))" for x l
    unfolding fdiv_def using nz [of l] by (rule if_not_P)
  show ?thesis
    by (simp add: lat_long_to_xyz_def geographicToCartesian_def spec_nu_def r dv rad_def Let_def)
qed

text \<open>
  C5. On every ellipsoid or datum with \<open>e2 < 1\<close> (every one with a nonzero minor axis)
  \<open>lat_long_to_xyz\<close> returns the closed form
  \<open>((nu + H) cos lat cos long, (nu + H) cos lat sin long, ((1 - e2) nu + H) sin lat)\<close>
  with \<open>nu = a F_0 / sqrt (1 - e2 sin\<^sup>2 lat)\<close>, degrees converted first, for every latitude
  and longitude, and index by index over arrays of equal length.
\<close>

theorem lat_long_to_xyz_is_closed_form:
  assumes "e2 d < 1"
  shows "lat_long_to_xyz lat long radians d = Some (geographicToCartesian lat long d radians)
       \<and> (length lats = length longs \<longrightarrow>
            lat_long_to_xyz_arr lats longs radians d =
              Inr (map2 (\<lambda>lat long. Some (geographicToCartesian lat long d radians)) lats longs))"
proof (intro conjI impI)
  show "lat_long_to_xyz lat long radians d = Some (geographicToCartesian lat long d radians)"
    by (rule lat_long_to_xyz_closed_form [OF assms])
next
  assume len: "length lats = length longs"
  have "map (\<lambda>i. lat_long_to_xyz (bget lats i) (bget longs i) radians d) [0..<length longs]
      = map2 (\<lambda>lat long. Some (geographicToCartesian lat long d radians)) lats longs"
  proof (rule nth_equalityI)
    show "length (map (\<lambda>i. lat_long_to_xyz (bget lats i) (bget longs i) radians d) [0..<length longs])
        = length (map2 (\<lambda>lat long. Some (geographicToCartesian lat long d radians)) lats longs)"
      using len by simp
  next
    fix i
    assume "i < length (map (\<lambda>i. lat_long_to_xyz (bget lats i) (bget longs i) radians d) [0..<length longs])"
    then have i: "i < length longs" by simp
    then have "bget lats i = lats ! i" "bget longs i = longs ! i"
      using len by (auto simp add: bget_def)
    then show "map (\<lambda>i. lat_long_to_xyz (bget lats i) (bget longs i) radians d) [0..<length longs] ! i
        = map2 (\<lambda>lat long. Some (geographicToCartesian lat long d radians)) lats longs ! i"
      using i len by (simp add: lat_long_to_xyz_closed_form [OF assms])
  qed
  then show "lat_long_to_xyz_arr lats longs radians d =
              Inr (map2 (\<lambda>lat long. Some (geographicToCartesian lat long d radians)) lats longs)"
    using len by (simp add: lat_long_to_xyz_arr_def bshape_def)
qed

theorem lat_long_to_xyz_is_closed_form_witness:
  "lat_long_to_xyz 0 0 True wgs84 = Some (6378137 * 0.9996, 0, 0)
   \<and> lat_long_to_xyz_arr [0, 0] [0, 0] True wgs84
       = Inr [Some (6378137 * 0.9996, 0, 0), Some (6378137 * 0.9996, 0, 0)]"
  using lat_long_to_xyz_is_closed_form [OF e2_wgs84(2), of 0 0 True "[0, 0]" "[0, 0]"]
  by (simp add: geographicToCartesian_def spec_nu_def wgs84_def)

subsection \<open>Grid projection\<close>

lemma powr_three_halves: "0 < w \<Longrightarrow> w powr (3 / 2) = w * sqrt w"
proof -
  assume w: "0 < w"
  have "w powr (3 / 2) = w powr (1 + 1 / 2)" by simp
  also have "\<dots> = w powr 1 * w powr (1 / 2)" by (rule powr_add)
  also have "\<dots> = w * sqrt w" using w by (simp add: powr_half_sqrt)
  finally show ?thesis .
qed

lemma osgb36_scale_pos: "0 < semi_a osgb36 * F_0 osgb36"
  by (simp add: osgb36_def)

lemma nu_over_rho:
  "spec_nu osgb36 l / spec_rho l = (1 - e2 osgb36 * (sin l)\<^sup>2) / (1 - e2 osgb36)"
proof -
  define w where "w = 1 - e2 osgb36 * (sin l)\<^sup>2"
  have w: "0 < w" unfolding w_def by (rule radicand_pos [OF e2_osgb36(2)])
  then have sw: "0 < sqrt w" by simp
  have c: "semi_a osgb36 * F_0 osgb36 \<noteq> 0" using osgb36_scale_pos by linarith
  have e: "1 - e2 osgb36 \<noteq> 0" using e2_osgb36(2) by simp
  have "spec_nu osgb36 l / spec_rho l =
        (semi_a osgb36 * F_0 osgb36 / sqrt w) / (semi_a osgb36 * F_0 osgb36 * (1 - e2 osgb36) / (w * sqrt w))"
    using w by (simp add: spec_nu_def spec_rho_def w_def [symmetric] powr_three_halves)
  also have "\<dots> = w / (1 - e2 osgb36)"
    using c e sw w by (simp add: field_simps)
  finally show ?thesis unfolding w_def .
qed

lemma eta2_nonneg: "0 \<le> spec_eta2 l"
proof -
  have "(sin l)\<^sup>2 \<le> 1" by (simp add: abs_square_le_1)
  then have "e2 osgb36 * (sin l)\<^sup>2 \<le> e2 osgb36 * 1"
    using e2_osgb36(1) by (intro mult_left_mono) simp_all
  then have "1 - e2 osgb36 \<le> 1 - e2 osgb36 * (sin l)\<^sup>2" by simp
  then have "1 \<le> (1 - e2 osgb36 * (sin l)\<^sup>2) / (1 - e2 osgb36)"
    using e2_osgb36(2) by (simp add: le_divide_eq)
  then show ?thesis by (simp add: spec_eta2_def nu_over_rho)
qed

lemma spec_rho_nonzero: "spec_rho l \<noteq> 0"
proof -
  have "0 < 1 - e2 osgb36 * (sin l)\<^sup>2" by (rule radicand_pos [OF e2_osgb36(2)])
  then have "0 < (1 - e2 osgb36 * (sin l)\<^sup>2) powr 1.5" by simp
  moreover have "0 < semi_a osgb36 * F_0 osgb36 * (1 - e2 osgb36)"
    using osgb36_scale_pos e2_osgb36(2) by simp
  ultimately have "0 < spec_rho l" unfolding spec_rho_def by (rule divide_pos_pos [rotated])
  then show ?thesis by simp
qed

lemma projection_terms:
  "do {
           r \<leftarrow> fsqrt (1 - e2 osgb36 * (sin lat)\<^sup>2);
           nu \<leftarrow> fdiv (semi_a osgb36 * F_0 osgb36) r;
           w \<leftarrow> fpow (1 - e2 osgb36 * (sin lat)\<^sup>2) (3 / 2);
           rho \<leftarrow> fdiv (semi_a osgb36 * F_0 osgb36 * (1 - e2 osgb36)) w;
           nr \<leftarrow> fdiv nu rho;
           heta \<leftarrow> fsqrt (nr - 1);
           t \<leftarrow> ftan lat;
           g nu nr heta t
         } = (if cos lat = 0 then None
              else g (spec_nu osgb36 lat) (spec_nu osgb36 lat / spec_rho lat)
                     (sqrt (spec_eta2 lat)) (tan lat))"
proof -
  have w: "0 < 1 - e2 osgb36 * (sin lat)\<^sup>2" by (rule radicand_pos [OF e2_osgb36(2)])
  have 1: "fsqrt (1 - e2 osgb36 * (sin lat)\<^sup>2) = Some (sqrt (1 - e2 osgb36 * (sin lat)\<^sup>2))"
    using w by (simp add: fsqrt_def)
  have "sqrt (1 - e2 osgb36 * (sin lat)\<^sup>2) \<noteq> 0"
    using w by (metis less_irrefl real_sqrt_eq_zero_cancel_iff)
  then have 2: "fdiv (semi_a osgb36 * F_0 osgb36) (sqrt (1 - e2 osgb36 * (sin lat)\<^sup>2))
             = Some (spec_nu osgb36 lat)"
    by (simp add: fdiv_def spec_nu_def)
  have 3: "fpow (1 - e2 osgb36 * (sin lat)\<^sup>2) (3 / 2) = Some ((1 - e2 osgb36 * (sin lat)\<^sup>2) powr (3 / 2))"
    unfolding fpow_def using w by (rule if_P)
  have "(1 - e2 osgb36 * (sin lat)\<^sup>2) powr (3 / 2) \<noteq> 0"
    using w by simp
  then have 4: "fdiv (semi_a osgb36 * F_0 osgb36 * (1 - e2 osgb36)) ((1 - e2 osgb36 * (sin lat)\<^sup>2) powr (3 / 2))
             = Some (spec_rho lat)"
    by (simp add: fdiv_def spec_rho_def)
  have 5: "fdiv (spec_nu osgb36 lat) (spec_rho lat) = Some (spec_nu osgb36 lat / spec_rho lat)"
    unfolding fdiv_def using spec_rho_nonzero [of lat] by (rule if_not_P)
  have 6: "fsqrt (spec_nu osgb36 lat / spec_rho lat - 1) = Some (sqrt (spec_eta2 lat))"
    using eta2_nonneg [of lat] by (simp add: fsqrt_def spec_eta2_def)
  show ?thesis
    unfolding 1 bind.bind_lunit 2 3 4 5 6 ftan_def by simp
qed

lemma projection_point:
  "(case Some (lat, long) of
      None \<Rightarrow> None
    | Some (latitude, longitude) \<Rightarrow>
        do {
          r \<leftarrow> fsqrt (1 - e2 osgb36 * (sin latitude)\<^sup>2);
          nu \<leftarrow> fdiv (semi_a osgb36 * F_0 osgb36) r;
          w \<leftarrow> fpow (1 - e2 osgb36 * (sin latitude)\<^sup>2) (3 / 2);
          rho \<leftarrow> fdiv (semi_a osgb36 * F_0 osgb36 * (1 - e2 osgb36)) w;
          nr \<leftarrow> fdiv nu rho;
          heta \<leftarrow> fsqrt (nr - 1);
          t \<leftarrow> ftan latitude;
          g latitude longitude nu nr heta t
        })
   = (if cos lat = 0 then None
      else g lat long (spec_nu osgb36 lat) (spec_nu osgb36 lat / spec_rho lat)
             (sqrt (spec_eta2 lat)) (tan lat))"
  by (simp only: option.case prod.case projection_terms)

lemma get_easting_northing_radians:
  "get_easting_northing_from_lat_long la lo True =
     (case WGS84toOSGB36 la lo True of
        None \<Rightarrow> None
      | Some (lat, long) \<Rightarrow> if cos lat = 0 then None else Some (project lat long))"
proof (cases "WGS84toOSGB36 la lo True")
  case None
  then show ?thesis
    by (simp add: get_easting_northing_from_lat_long_def)
next
  case (Some r)
  obtain lat long where r: "r = (lat, long)" by (cases r)
  have s: "(sqrt (spec_eta2 lat))\<^sup>2 = spec_eta2 lat"
    using eta2_nonneg [of lat] by simp
  have "get_easting_northing_from_lat_long la lo True =
        (if cos lat = 0 then None else Some (project lat long))"
    unfolding get_easting_northing_from_lat_long_def Let_def not_True_eq_False if_False Some r
      projection_point
    by (simp add: project_def Let_def spec_I_def spec_II_def spec_III_def spec_IIIA_def
          spec_IV_def spec_V_def spec_VI_def spec_arc_def s spec_eta2_def [symmetric])
  then show ?thesis
    by (simp add: Some r)
qed

lemma get_easting_northing_degrees:
  "get_easting_northing_from_lat_long la lo False =
     get_easting_northing_from_lat_long (rad la 0 0) (rad lo 0 0) True"
  by (simp add: get_easting_northing_from_lat_long_def)

text \<open>
  C6. \<open>get_easting_northing_from_lat_long\<close> converts degrees to radians, runs the datum
  composition, and on its result \<open>(lat, long)\<close> returns
  \<open>easting = E_0 + IV dL + V dL\<^sup>3 + VI dL\<^sup>5\<close> and
  \<open>northing = I + II dL\<^sup>2 + III dL\<^sup>4 + IIIA dL\<^sup>6\<close> with \<open>dL = long - lam_0\<close>, where \<open>I\<close> is
  \<open>N_0\<close> plus the four-term arc scaled by \<open>b F_0\<close>,
  \<open>rho = a F_0 (1 - e2) / (1 - e2 sin\<^sup>2 lat) ^ 1.5\<close> and \<open>eta\<^sup>2 = nu / rho - 1\<close>, all on the
  OSGB36 parameters. The result is not a finite real when the composition's is not, or
  when the tangent of the latitude is not.
\<close>

theorem get_easting_northing_is_series:
  "get_easting_northing_from_lat_long latitude longitude radians =
     (case WGS84toOSGB36 (if radians then latitude else rad latitude 0 0)
                         (if radians then longitude else rad longitude 0 0) True of
        None \<Rightarrow> None
      | Some (lat, long) \<Rightarrow> if cos lat = 0 then None else Some (project lat long))"
  by (cases radians)
    (simp_all only: get_easting_northing_degrees get_easting_northing_radians if_True if_False)

subsection \<open>The Newton step\<close>

lemma radicand_deriv:
  "((\<lambda>x. 1 - e * (sin x)\<^sup>2) has_real_derivative - (e * (2 * sin l * cos l))) (at l)"
  by (auto intro!: derivative_eq_intros)

lemma sqrt_radicand_deriv:
  assumes "0 < 1 - e * (sin l)\<^sup>2"
  shows "((\<lambda>x. sqrt (1 - e * (sin x)\<^sup>2)) has_real_derivative
           inverse (sqrt (1 - e * (sin l)\<^sup>2)) / 2 * - (e * (2 * sin l * cos l))) (at l)"
  by (rule DERIV_chain' [OF radicand_deriv DERIV_real_sqrt [OF assms]])

lemma spec_nu_deriv:
  assumes "e2 d < 1"
  shows "(spec_nu d has_real_derivative spec_dnu d l) (at l)"
proof -
  define w where "w = 1 - e2 d * (sin l)\<^sup>2"
  define c where "c = semi_a d * F_0 d"
  have w: "0 < w" unfolding w_def by (rule radicand_pos [OF assms])
  then have sw: "0 < sqrt w" by simp
  then have nz: "sqrt w \<noteq> 0" by simp
  have s: "((\<lambda>x. sqrt (1 - e2 d * (sin x)\<^sup>2)) has_real_derivative
           inverse (sqrt w) / 2 * - (e2 d * (2 * sin l * cos l))) (at l)"
    unfolding w_def by (rule sqrt_radicand_deriv) (use w in \<open>simp add: w_def\<close>)
  have "((\<lambda>x. c / sqrt (1 - e2 d * (sin x)\<^sup>2)) has_real_derivative
           (0 * sqrt w - c * (inverse (sqrt w) / 2 * - (e2 d * (2 * sin l * cos l)))) / (sqrt w * sqrt w)) (at l)"
    unfolding w_def
    by (rule DERIV_divide [OF DERIV_const s [unfolded w_def]]) (use nz in \<open>simp add: w_def\<close>)
  also have "(0 * sqrt w - c * (inverse (sqrt w) / 2 * - (e2 d * (2 * sin l * cos l)))) / (sqrt w * sqrt w)
      = spec_dnu d l"
    using w sw by (simp add: spec_dnu_def w_def [symmetric] c_def powr_three_halves field_simps)
  finally show ?thesis
    unfolding spec_nu_def [abs_def] c_def .
qed

lemma spec_f0_deriv:
  assumes "e2 d < 1" and "cos l \<noteq> 0"
  shows "(spec_f0 d z p has_real_derivative spec_f1 d p l) (at l)"
proof -
  have n: "((\<lambda>x. z + e2 d * spec_nu d x * sin x) has_real_derivative
              e2 d * (spec_dnu d l * sin l + spec_nu d l * cos l)) (at l)"
    by (auto intro!: derivative_eq_intros spec_nu_deriv [OF assms(1)] simp add: algebra_simps)
  have q: "((\<lambda>x. (z + e2 d * spec_nu d x * sin x) / p) has_real_derivative
              e2 d * (spec_dnu d l * sin l + spec_nu d l * cos l) / p) (at l)"
    by (rule DERIV_cdivide [OF n])
  have t: "(tan has_real_derivative 1 / (cos l)\<^sup>2) (at l)"
    using DERIV_tan [OF assms(2)] by (simp add: inverse_eq_divide)
  show ?thesis
    unfolding spec_f0_def [abs_def] spec_f1_def
    by (rule DERIV_diff [OF q t])
qed

lemma newton_dnu_Some:
  assumes "e2 d < 1"
  shows "newton_dnu d l =
           Some (- semi_a d * F_0 d * cos l * sin l / (1 - e2 d * (sin l)\<^sup>2) powr 1.5)"
proof -
  have w: "0 < 1 - e2 d * (sin l)\<^sup>2" by (rule radicand_pos [OF assms])
  have 1: "fpow (1 - e2 d * (sin l)\<^sup>2) 1.5 = Some ((1 - e2 d * (sin l)\<^sup>2) powr 1.5)"
    unfolding fpow_def using w by (rule if_P)
  have "(1 - e2 d * (sin l)\<^sup>2) powr 1.5 \<noteq> 0" using w by simp
  then have 2: "fdiv x ((1 - e2 d * (sin l)\<^sup>2) powr 1.5) = Some (x / (1 - e2 d * (sin l)\<^sup>2) powr 1.5)" for x
    unfolding fdiv_def by (rule if_not_P)
  show ?thesis
    unfolding newton_dnu_def 1 bind.bind_lunit 2 ..
qed

lemma spec_nu_pos:
  assumes "e2 d < 1" and "0 < semi_a d * F_0 d"
  shows "0 < spec_nu d l"
  unfolding spec_nu_def using radicand_pos [OF assms(1), of l] assms(2) by simp

lemma newton_f1_Some:
  assumes "e2 d < 1" and "0 < semi_a d * F_0 d" and "p \<noteq> 0" and "cos l \<noteq> 0"
  shows "newton_f1 d p l =
           Some (e2 d * (spec_nu d l powr cos l
                         + - semi_a d * F_0 d * cos l * sin l / (1 - e2 d * (sin l)\<^sup>2) powr 1.5 * sin l) / p
                 - 1 / (cos l)\<^sup>2)"
proof -
  have 1: "fpow (spec_nu d l) (cos l) = Some (spec_nu d l powr cos l)"
    unfolding fpow_def using spec_nu_pos [OF assms(1,2)] by (rule if_P)
  have 2: "fdiv x p = Some (x / p)" for x
    unfolding fdiv_def using assms(3) by (rule if_not_P)
  have "(cos l)\<^sup>2 \<noteq> 0" using assms(4) by simp
  then have 3: "fdiv 1.0 ((cos l)\<^sup>2) = Some (1 / (cos l)\<^sup>2)"
    by (simp add: fdiv_def)
  show ?thesis
    unfolding newton_f1_def newton_nu_Some [OF assms(1)] newton_dnu_Some [OF assms(1)]
      bind.bind_lunit 1 2 3 ..
qed

lemma newton_f0_Some:
  assumes "e2 d < 1" and "p \<noteq> 0" and "cos l \<noteq> 0"
  shows "newton_f0 d z p l = Some (spec_f0 d z p l)"
proof -
  have 2: "fdiv x p = Some (x / p)" for x
    unfolding fdiv_def using assms(2) by (rule if_not_P)
  have 3: "ftan l = Some (tan l)"
    unfolding ftan_def using assms(3) by (rule if_not_P)
  show ?thesis
    unfolding newton_f0_def newton_nu_Some [OF assms(1)] bind.bind_lunit 2 3 spec_f0_def ..
qed

lemma first_guess_60:
  "arctan2 (sqrt 3 * 3000000 * (1 - e2 osgb36)) (sqrt (3000000\<^sup>2 + 0\<^sup>2) * (1 - e2 osgb36)) = pi / 3"
proof -
  define k where "k = 1 - e2 osgb36"
  have k: "0 < k" unfolding k_def using e2_osgb36(2) by simp
  have "- (pi / 2) < pi / 3" and "pi / 3 < pi / 2"
    using pi_gt_zero by linarith+
  then have a: "arctan (sqrt 3) = pi / 3"
    by (rule arctan_unique) (rule tan_60)
  have p: "sqrt (3000000\<^sup>2 + 0\<^sup>2) = (3000000 :: real)" by simp
  have q: "sqrt 3 * 3000000 * k / (3000000 * k) = sqrt 3"
    using k by simp
  have "0 < 3000000 * k" using k by simp
  then have "arctan2 (sqrt 3 * 3000000 * k) (3000000 * k) = arctan (sqrt 3 * 3000000 * k / (3000000 * k))"
    unfolding arctan2_def by (rule if_P)
  then show ?thesis
    unfolding p k_def [symmetric] q a .
qed

lemma osgb36_nu_large: "4 < spec_nu osgb36 l"
proof -
  define w where "w = 1 - e2 osgb36 * (sin l)\<^sup>2"
  have w: "0 < w" unfolding w_def by (rule radicand_pos [OF e2_osgb36(2)])
  have "0 \<le> e2 osgb36 * (sin l)\<^sup>2" using e2_osgb36(1) by simp
  then have "w \<le> 1" unfolding w_def by simp
  then have "sqrt w \<le> 1" by simp
  moreover have "0 < sqrt w" using w by simp
  moreover have c: "4 < semi_a osgb36 * F_0 osgb36" by (simp add: osgb36_def)
  ultimately have "4 < semi_a osgb36 * F_0 osgb36 / sqrt w"
    by (smt (verit) less_divide_eq mult_left_le)
  then show ?thesis unfolding spec_nu_def w_def .
qed

lemma sqrt_less_half:
  assumes "4 < (v::real)"
  shows "sqrt v < v / 2"
proof -
  have s: "2 < sqrt v" using assms real_less_rsqrt [of 2 v] by simp
  then have "0 < sqrt v" by linarith
  with s have "sqrt v * 2 < sqrt v * sqrt v" by (rule mult_strict_left_mono)
  moreover have "sqrt v * sqrt v = v" using assms by simp
  ultimately show ?thesis by linarith
qed

lemma newton_f1_below_spec_f1:
  assumes "0 < p"
  shows "\<exists>f1. newton_f1 osgb36 p (pi / 3) = Some f1 \<and> f1 < spec_f1 osgb36 p (pi / 3)"
proof -
  define nu where "nu = spec_nu osgb36 (pi / 3)"
  define W where "W = (1 - e2 osgb36 * (sqrt 3 / 2)\<^sup>2) powr 1.5"
  define dc where "dc = - semi_a osgb36 * F_0 osgb36 * (1 / 2) * (sqrt 3 / 2) / W"
  define ds where "ds = semi_a osgb36 * F_0 osgb36 * e2 osgb36 * (sqrt 3 / 2) * (1 / 2) / W"
  have "0 < 1 - e2 osgb36 * (sin (pi / 3))\<^sup>2" by (rule radicand_pos [OF e2_osgb36(2)])
  then have Wpos: "0 < W" unfolding W_def sin_60 by simp
  have nu: "4 < nu" unfolding nu_def by (rule osgb36_nu_large)
  have pz: "p \<noteq> 0" using assms by simp
  have cz: "cos (pi / 3) \<noteq> 0" by (simp add: cos_60)
  have code: "newton_f1 osgb36 p (pi / 3) =
      Some (e2 osgb36 * (nu powr (1 / 2) + dc * (sqrt 3 / 2)) / p - 1 / (1 / 2)\<^sup>2)"
    using newton_f1_Some [OF e2_osgb36(2) osgb36_scale_pos pz cz]
    unfolding cos_60 sin_60 nu_def W_def dc_def .
  have spec: "spec_f1 osgb36 p (pi / 3) =
      e2 osgb36 * (ds * (sqrt 3 / 2) + nu * (1 / 2)) / p - 1 / (1 / 2)\<^sup>2"
    unfolding spec_f1_def spec_dnu_def cos_60 sin_60 nu_def W_def ds_def ..
  have pw: "nu powr (1 / 2) = sqrt nu"
    using nu by (simp add: powr_half_sqrt)
  have a: "sqrt nu < nu * (1 / 2)" using sqrt_less_half [OF nu] by simp
  have "dc < 0"
    unfolding dc_def using osgb36_scale_pos Wpos by (simp add: divide_neg_pos)
  then have b: "dc * (sqrt 3 / 2) < 0"
    by (simp add: mult_neg_pos)
  have "0 < ds"
    unfolding ds_def using osgb36_scale_pos Wpos e2_osgb36(1) by simp
  then have c: "0 < ds * (sqrt 3 / 2)" by simp
  have "sqrt nu + dc * (sqrt 3 / 2) < ds * (sqrt 3 / 2) + nu * (1 / 2)"
    using a b c by linarith
  then have "e2 osgb36 * (sqrt nu + dc * (sqrt 3 / 2)) < e2 osgb36 * (ds * (sqrt 3 / 2) + nu * (1 / 2))"
    using e2_osgb36(1) by (rule mult_strict_left_mono)
  then have "e2 osgb36 * (sqrt nu + dc * (sqrt 3 / 2)) / p
        < e2 osgb36 * (ds * (sqrt 3 / 2) + nu * (1 / 2)) / p"
    using assms by (rule divide_strict_right_mono)
  then show ?thesis
    unfolding code spec pw by simp
qed

lemma newton_dnu_sign:
  "\<exists>dnu. newton_dnu osgb36 (pi / 3) = Some dnu \<and> dnu < 0 \<and> 0 < spec_dnu osgb36 (pi / 3)"
proof -
  define W where "W = (1 - e2 osgb36 * (sqrt 3 / 2)\<^sup>2) powr 1.5"
  have "0 < 1 - e2 osgb36 * (sin (pi / 3))\<^sup>2" by (rule radicand_pos [OF e2_osgb36(2)])
  then have Wpos: "0 < W" unfolding W_def sin_60 by simp
  have code: "newton_dnu osgb36 (pi / 3) = Some (- semi_a osgb36 * F_0 osgb36 * (1 / 2) * (sqrt 3 / 2) / W)"
    using newton_dnu_Some [OF e2_osgb36(2), of "pi / 3"] unfolding cos_60 sin_60 W_def .
  have spec: "spec_dnu osgb36 (pi / 3) = semi_a osgb36 * F_0 osgb36 * e2 osgb36 * (sqrt 3 / 2) * (1 / 2) / W"
    unfolding spec_dnu_def cos_60 sin_60 W_def ..
  have "- semi_a osgb36 * F_0 osgb36 * (1 / 2) * (sqrt 3 / 2) / W < 0"
    using osgb36_scale_pos Wpos by (simp add: divide_neg_pos)
  moreover have "0 < semi_a osgb36 * F_0 osgb36 * e2 osgb36 * (sqrt 3 / 2) * (1 / 2) / W"
    using osgb36_scale_pos Wpos e2_osgb36(1) by simp
  ultimately show ?thesis
    unfolding code spec by simp
qed

text \<open>
  C2. In every pass \<open>f1\<close> is the derivative of \<open>f0\<close> with respect to the latitude,
  \<open>e2 (dnu sin lat + nu cos lat) / p - 1 / cos\<^sup>2 lat\<close>. The code computes
  \<open>nu ** cos lat\<close> where the derivative has \<open>nu * cos lat\<close>. The point
  \<open>x = 3000000, y = 0, z = sqrt 3 * 3000000 * (1 - e2)\<close> on \<open>osgb36\<close> has the first guess
  \<open>pi / 3\<close>; there the code's \<open>f0\<close> is the residual, whose derivative is \<open>spec_f1\<close>, and the
  code's \<open>f1\<close> lies strictly below it, so it is not the derivative of \<open>f0\<close>.
\<close>

theorem newton_f1_is_not_the_derivative:
  "arctan2 (sqrt 3 * 3000000 * (1 - e2 osgb36)) (sqrt (3000000\<^sup>2 + 0\<^sup>2) * (1 - e2 osgb36)) = pi / 3
   \<and> newton_f0 osgb36 z 3000000 (pi / 3) = Some (spec_f0 osgb36 z 3000000 (pi / 3))
   \<and> (spec_f0 osgb36 z 3000000 has_real_derivative spec_f1 osgb36 3000000 (pi / 3)) (at (pi / 3))
   \<and> (\<exists>f1. newton_f1 osgb36 3000000 (pi / 3) = Some f1
            \<and> f1 < spec_f1 osgb36 3000000 (pi / 3)
            \<and> \<not> (spec_f0 osgb36 z 3000000 has_real_derivative f1) (at (pi / 3)))"
proof -
  have cz: "cos (pi / 3) \<noteq> 0" by (simp add: cos_60)
  have d: "(spec_f0 osgb36 z 3000000 has_real_derivative spec_f1 osgb36 3000000 (pi / 3)) (at (pi / 3))"
    by (rule spec_f0_deriv [OF e2_osgb36(2) cz])
  obtain f1 where f1: "newton_f1 osgb36 3000000 (pi / 3) = Some f1"
    and lt: "f1 < spec_f1 osgb36 3000000 (pi / 3)"
    using newton_f1_below_spec_f1 [of 3000000] by auto
  have "\<not> (spec_f0 osgb36 z 3000000 has_real_derivative f1) (at (pi / 3))"
  proof
    assume "(spec_f0 osgb36 z 3000000 has_real_derivative f1) (at (pi / 3))"
    then have "f1 = spec_f1 osgb36 3000000 (pi / 3)" using d by (rule DERIV_unique)
    then show False using lt by simp
  qed
  moreover have "newton_f0 osgb36 z 3000000 (pi / 3) = Some (spec_f0 osgb36 z 3000000 (pi / 3))"
    by (rule newton_f0_Some [OF e2_osgb36(2) _ cz]) simp
  ultimately show ?thesis
    using first_guess_60 d f1 lt by blast
qed

subsection \<open>Round trip\<close>

lemma arctan2_polar:
  assumes r: "0 < r" and lo: "- pi < t" and hi: "t \<le> pi"
  shows "arctan2 (r * sin t) (r * cos t) = t"
proof -
  have q: "r * sin t / (r * cos t) = tan t"
    using r by (simp add: tan_def)
  consider (mid) "- (pi / 2) < t" "t < pi / 2" | (up) "pi / 2 < t" | (down) "t < - (pi / 2)"
    | (top) "t = pi / 2" | (bot) "t = - (pi / 2)"
    by linarith
  then show ?thesis
  proof cases
    case mid
    then have "0 < cos t" by (rule cos_gt_zero_pi)
    then have "0 < r * cos t" using r by simp
    then have "arctan2 (r * sin t) (r * cos t) = arctan (r * sin t / (r * cos t))"
      unfolding arctan2_def by (rule if_P)
    then show ?thesis unfolding q using mid by (simp add: arctan_tan)
  next
    case up
    have m: "- (pi / 2) < t - pi" "t - pi < pi / 2" using up hi by linarith+
    then have "0 < cos (t - pi)" by (rule cos_gt_zero_pi)
    then have c: "cos t < 0" by simp
    have "0 \<le> t - pi + pi" "t - pi + pi \<le> pi" using up hi pi_gt_zero by linarith+
    then have "0 \<le> sin t" using sin_ge_zero [of t] by simp
    then have s: "0 \<le> r * sin t" using r by simp
    have x: "r * cos t < 0" using r c by (simp add: mult_pos_neg)
    then have nx: "\<not> 0 < r * cos t" by linarith
    have "arctan2 (r * sin t) (r * cos t) = arctan (r * sin t / (r * cos t)) + pi"
      unfolding arctan2_def using nx x s by simp
    also have "arctan (r * sin t / (r * cos t)) = arctan (tan (t - pi))"
      unfolding q using tan_periodic_pi [of "t - pi"] by simp
    also have "\<dots> = t - pi" using m by (rule arctan_tan)
    finally show ?thesis by simp
  next
    case down
    have m: "- (pi / 2) < t + pi" "t + pi < pi / 2" using down lo by linarith+
    then have "0 < cos (t + pi)" by (rule cos_gt_zero_pi)
    then have c: "cos t < 0" by simp
    have "0 < t + pi" "t + pi < pi" using down lo pi_gt_zero by linarith+
    then have "0 < sin (t + pi)" by (rule sin_gt_zero)
    then have "sin t < 0" by simp
    then have s: "r * sin t < 0" using r by (simp add: mult_pos_neg)
    then have ns: "\<not> 0 \<le> r * sin t" by linarith
    have x: "r * cos t < 0" using r c by (simp add: mult_pos_neg)
    then have nx: "\<not> 0 < r * cos t" by linarith
    have "arctan2 (r * sin t) (r * cos t) = arctan (r * sin t / (r * cos t)) - pi"
      unfolding arctan2_def using nx x ns by simp
    also have "arctan (r * sin t / (r * cos t)) = arctan (tan (t + pi))"
      unfolding q using tan_periodic_pi [of t] by simp
    also have "\<dots> = t + pi" using m by (rule arctan_tan)
    finally show ?thesis by simp
  next
    case top
    have "arctan2 (r * sin (pi / 2)) (r * cos (pi / 2)) = pi / 2"
      using r by (simp add: arctan2_def)
    then show ?thesis unfolding top .
  next
    case bot
    have "arctan2 (r * sin (- (pi / 2))) (r * cos (- (pi / 2))) = - (pi / 2)"
      using r by (simp add: arctan2_def)
    then show ?thesis unfolding bot .
  qed
qed

lemma spec_nu_ge_1:
  assumes "0 \<le> e2 d" and "e2 d < 1" and "1 \<le> semi_a d * F_0 d"
  shows "1 \<le> spec_nu d l"
proof -
  define w where "w = 1 - e2 d * (sin l)\<^sup>2"
  have w: "0 < w" unfolding w_def by (rule radicand_pos [OF assms(2)])
  have "0 \<le> e2 d * (sin l)\<^sup>2" using assms(1) by simp
  then have "w \<le> 1" unfolding w_def by simp
  then have "sqrt w \<le> 1" by simp
  then have "sqrt w \<le> semi_a d * F_0 d" using assms(3) by linarith
  moreover have "0 < sqrt w" using w by simp
  ultimately have "1 \<le> semi_a d * F_0 d / sqrt w"
    by (simp add: le_divide_eq)
  then show ?thesis unfolding spec_nu_def w_def .
qed

lemma newton_f1_negative:
  assumes e0: "0 \<le> e2 d" and e1: "e2 d < 1" and c1: "1 \<le> semi_a d * F_0 d"
    and lo: "- (pi / 2) < l" and hi: "l < pi / 2"
  shows "\<exists>f1. newton_f1 d (spec_nu d l * cos l) l = Some f1 \<and> f1 < 0"
proof -
  define nu where "nu = spec_nu d l"
  define W where "W = (1 - e2 d * (sin l)\<^sup>2) powr 1.5"
  define dc where "dc = - semi_a d * F_0 d * cos l * sin l / W"
  have cpos: "0 < semi_a d * F_0 d" using c1 by linarith
  have nu1: "1 \<le> nu" unfolding nu_def by (rule spec_nu_ge_1 [OF e0 e1 c1])
  then have nupos: "0 < nu" by linarith
  have cl: "0 < cos l" using lo hi by (rule cos_gt_zero_pi)
  have cl1: "cos l \<le> 1" by simp
  have ppos: "0 < nu * cos l" using nupos cl by simp
  have Wpos: "0 < W" unfolding W_def using radicand_pos [OF e1, of l] by simp
  have pz: "spec_nu d l * cos l \<noteq> 0" using ppos unfolding nu_def by linarith
  have cz: "cos l \<noteq> 0" using cl by simp
  have code: "newton_f1 d (nu * cos l) l =
      Some (e2 d * (nu powr cos l + dc * sin l) / (nu * cos l) - 1 / (cos l)\<^sup>2)"
    using newton_f1_Some [OF e1 cpos pz cz] unfolding nu_def W_def dc_def .
  have "nu powr cos l \<le> nu powr 1" using nu1 cl1 by (rule powr_mono [rotated])
  then have a: "nu powr cos l \<le> nu" using nupos by simp
  have "dc * sin l = - (semi_a d * F_0 d * cos l * (sin l * sin l) / W)"
    unfolding dc_def by simp
  moreover have "0 \<le> semi_a d * F_0 d * cos l * (sin l * sin l) / W"
    using cpos cl Wpos by simp
  ultimately have b: "dc * sin l \<le> 0" by linarith
  have "nu powr cos l + dc * sin l \<le> nu" using a b by linarith
  then have "e2 d * (nu powr cos l + dc * sin l) \<le> e2 d * nu"
    using e0 by (rule mult_left_mono)
  then have "e2 d * (nu powr cos l + dc * sin l) / (nu * cos l) \<le> e2 d * nu / (nu * cos l)"
    using ppos by (intro divide_right_mono) simp_all
  also have "e2 d * nu / (nu * cos l) = e2 d / cos l"
    using nupos by simp
  also have "\<dots> < 1 / cos l"
    using e1 cl by (simp add: divide_strict_right_mono)
  also have "1 / cos l \<le> 1 / (cos l)\<^sup>2"
  proof -
    have "(cos l)\<^sup>2 \<le> cos l * 1" unfolding power2_eq_square using cl cl1 by (intro mult_left_mono) simp_all
    then have "(cos l)\<^sup>2 \<le> cos l" by simp
    moreover have "0 < (cos l)\<^sup>2" using cl by simp
    ultimately show ?thesis by (simp add: frac_le)
  qed
  finally have "e2 d * (nu powr cos l + dc * sin l) / (nu * cos l) - 1 / (cos l)\<^sup>2 < 0"
    by simp
  then show ?thesis
    using code unfolding nu_def by simp
qed

lemma newton_step_fixed:
  assumes e0: "0 \<le> e2 d" and e1: "e2 d < 1" and c1: "1 \<le> semi_a d * F_0 d"
    and lo: "- (pi / 2) < l" and hi: "l < pi / 2"
  shows "newton_step d ((1 - e2 d) * spec_nu d l * sin l) (spec_nu d l * cos l) l = Some l"
proof -
  define nu where "nu = spec_nu d l"
  have nu1: "1 \<le> nu" unfolding nu_def by (rule spec_nu_ge_1 [OF e0 e1 c1])
  then have nupos: "0 < nu" by linarith
  have cl: "0 < cos l" using lo hi by (rule cos_gt_zero_pi)
  have pz: "nu * cos l \<noteq> 0" using nupos cl by simp
  have cz: "cos l \<noteq> 0" using cl by simp
  have "(1 - e2 d) * nu * sin l + e2 d * nu * sin l = nu * sin l"
    by (simp add: algebra_simps)
  then have "spec_f0 d ((1 - e2 d) * nu * sin l) (nu * cos l) l = nu * sin l / (nu * cos l) - tan l"
    unfolding spec_f0_def nu_def by simp
  also have "\<dots> = 0" using nupos by (simp add: tan_def)
  finally have f0: "newton_f0 d ((1 - e2 d) * nu * sin l) (nu * cos l) l = Some 0"
    using newton_f0_Some [OF e1 pz cz] by simp
  obtain f1 where f1: "newton_f1 d (nu * cos l) l = Some f1" and neg: "f1 < 0"
    using newton_f1_negative [OF e0 e1 c1 lo hi] unfolding nu_def by blast
  have "fdiv 0 f1 = Some 0" using neg by (simp add: fdiv_def)
  then show ?thesis
    unfolding newton_step_def nu_def [symmetric] f0 f1 bind.bind_lunit by simp
qed

lemma newton_loop_fixed:
  assumes "newton_step d z p l = Some l"
  shows "newton_loop d z p rng (Some l) = Some l"
  using assms by (induction rng) simp_all


lemma surface_point_inverse:
  assumes h: "H d = 0" and e1: "e2 d < 1" and c: "0 < semi_a d * F_0 d"
    and lo: "- (pi / 2) < l" and hi: "l < pi / 2" and glo: "- pi < g" and ghi: "g \<le> pi"
  shows "lat_long_to_xyz l g True d =
           Some (spec_nu d l * cos l * cos g, spec_nu d l * cos l * sin g,
                 (1 - e2 d) * spec_nu d l * sin l)
       \<and> xyz_to_lat_long (spec_nu d l * cos l * cos g) (spec_nu d l * cos l * sin g)
            ((1 - e2 d) * spec_nu d l * sin l) True d =
           (newton_loop d ((1 - e2 d) * spec_nu d l * sin l) (spec_nu d l * cos l) [0..<6] (Some l), g)"
proof -
  define nu where "nu = spec_nu d l"
  define x where "x = nu * cos l * cos g"
  define y where "y = nu * cos l * sin g"
  define z where "z = (1 - e2 d) * nu * sin l"
  have nupos: "0 < nu" unfolding nu_def by (rule spec_nu_pos [OF e1 c])
  have cl: "0 < cos l" using lo hi by (rule cos_gt_zero_pi)
  have ppos: "0 < nu * cos l" using nupos cl by simp
  have rpos: "0 < (1 - e2 d) * nu" using nupos e1 by simp
  have fwd: "lat_long_to_xyz l g True d = Some (x, y, z)"
    unfolding lat_long_to_xyz_closed_form [OF e1]
    by (simp add: geographicToCartesian_def Let_def h nu_def x_def y_def z_def)
  have "x\<^sup>2 + y\<^sup>2 = (nu * cos l)\<^sup>2 * (cos g)\<^sup>2 + (nu * cos l)\<^sup>2 * (sin g)\<^sup>2"
    unfolding x_def y_def by (simp only: power_mult_distrib)
  also have "\<dots> = (nu * cos l)\<^sup>2 * ((cos g)\<^sup>2 + (sin g)\<^sup>2)"
    by (simp only: distrib_left)
  also have "\<dots> = (nu * cos l)\<^sup>2"
    by (simp only: cos_squared_eq mult_1_right diff_add_cancel)
  finally have "x\<^sup>2 + y\<^sup>2 = (nu * cos l)\<^sup>2" .
  then have p: "sqrt (x\<^sup>2 + y\<^sup>2) = nu * cos l"
    using ppos by simp
  have lon: "arctan2 y x = g"
    unfolding x_def y_def by (rule arctan2_polar [OF ppos glo ghi])
  have "- pi < l" "l \<le> pi" using lo hi pi_gt_zero by linarith+
  then have t: "arctan2 ((1 - e2 d) * nu * sin l) ((1 - e2 d) * nu * cos l) = l"
    by (rule arctan2_polar [OF rpos])
  have cm: "nu * cos l * (1 - e2 d) = (1 - e2 d) * nu * cos l"
    by (simp only: mult.commute mult.left_commute)
  have lat0: "arctan2 z (nu * cos l * (1 - e2 d)) = l"
    unfolding z_def cm by (rule t)
  have "xyz_to_lat_long x y z True d = (newton_loop d z (nu * cos l) [0..<6] (Some l), g)"
    unfolding xyz_to_lat_long_def Let_def p lon lat0 by simp
  then show ?thesis
    using fwd unfolding x_def y_def z_def nu_def by simp
qed

lemma spec_f1_on_surface:
  assumes e1: "e2 d < 1" and c: "0 < semi_a d * F_0 d"
    and lo: "- (pi / 2) < l" and hi: "l < pi / 2"
  shows "spec_f1 d (spec_nu d l * cos l) l = e2 d / (1 - e2 d * (sin l)\<^sup>2) - 1 / (cos l)\<^sup>2"
    and "spec_f1 d (spec_nu d l * cos l) l < 0"
proof -
  define w where "w = 1 - e2 d * (sin l)\<^sup>2"
  define k where "k = semi_a d * F_0 d"
  have w: "0 < w" unfolding w_def by (rule radicand_pos [OF e1])
  then have sw: "0 < sqrt w" by simp
  have cl: "0 < cos l" using lo hi by (rule cos_gt_zero_pi)
  have kpos: "0 < k" unfolding k_def by (rule c)
  have nu: "spec_nu d l = k / sqrt w" unfolding spec_nu_def w_def k_def ..
  have dnu: "spec_dnu d l = k * e2 d * sin l * cos l / (w * sqrt w)"
    unfolding spec_dnu_def w_def [symmetric] k_def [symmetric]
    using w by (simp add: powr_three_halves)
  have sum: "e2 d * (sin l)\<^sup>2 + w = 1" unfolding w_def by simp
  have "e2 d * (spec_dnu d l * sin l + spec_nu d l * cos l) / (spec_nu d l * cos l)
      = e2 d * (e2 d * (sin l)\<^sup>2 + w) / w"
    unfolding nu dnu using w sw cl kpos
    by (simp add: field_simps power2_eq_square)
  then have q: "e2 d * (spec_dnu d l * sin l + spec_nu d l * cos l) / (spec_nu d l * cos l) = e2 d / w"
    unfolding sum by simp
  show eq: "spec_f1 d (spec_nu d l * cos l) l = e2 d / (1 - e2 d * (sin l)\<^sup>2) - 1 / (cos l)\<^sup>2"
    unfolding spec_f1_def q w_def ..
  have "e2 d * (cos l)\<^sup>2 = e2 d - e2 d * (sin l)\<^sup>2"
    by (simp add: cos_squared_eq algebra_simps)
  then have "e2 d * (cos l)\<^sup>2 < w" unfolding w_def using e1 by simp
  moreover have "0 < (cos l)\<^sup>2" using cl by simp
  ultimately have "e2 d / w < 1 / (cos l)\<^sup>2"
    using w by (simp add: field_simps)
  then show "spec_f1 d (spec_nu d l * cos l) l < 0"
    unfolding eq w_def by simp
qed

lemma spec_f0_on_surface:
  assumes e1: "e2 d < 1" and c: "0 < semi_a d * F_0 d"
  shows "spec_f0 d ((1 - e2 d) * spec_nu d l * sin l) (spec_nu d l * cos l) l = 0"
proof -
  define nu where "nu = spec_nu d l"
  have nupos: "0 < nu" unfolding nu_def by (rule spec_nu_pos [OF e1 c])
  have "(1 - e2 d) * nu * sin l + e2 d * nu * sin l = nu * sin l"
    by (simp add: algebra_simps)
  then have "spec_f0 d ((1 - e2 d) * nu * sin l) (nu * cos l) l = nu * sin l / (nu * cos l) - tan l"
    unfolding spec_f0_def nu_def by simp
  also have "\<dots> = 0" using nupos by (simp add: tan_def)
  finally show ?thesis unfolding nu_def .
qed

lemma spec_newton_step_fixed:
  assumes e1: "e2 d < 1" and c: "0 < semi_a d * F_0 d"
    and lo: "- (pi / 2) < l" and hi: "l < pi / 2"
  shows "spec_f1 d (spec_nu d l * cos l) l \<noteq> 0"
    and "spec_newton_step d ((1 - e2 d) * spec_nu d l * sin l) (spec_nu d l * cos l) l = l"
proof -
  show "spec_f1 d (spec_nu d l * cos l) l \<noteq> 0"
    using spec_f1_on_surface(2) [OF e1 c lo hi] by simp
  show "spec_newton_step d ((1 - e2 d) * spec_nu d l * sin l) (spec_nu d l * cos l) l = l"
    unfolding spec_newton_step_def spec_f0_on_surface [OF e1 c] by simp
qed

lemma round_trip_radians:
  assumes h: "H d = 0" and e0: "0 \<le> e2 d" and e1: "e2 d < 1" and c1: "1 \<le> semi_a d * F_0 d"
    and lo: "- (pi / 2) < l" and hi: "l < pi / 2" and glo: "- pi < g" and ghi: "g \<le> pi"
  shows "\<exists>x y z. lat_long_to_xyz l g True d = Some (x, y, z)
           \<and> xyz_to_lat_long x y z True d = (Some l, g)"
proof -
  have c: "0 < semi_a d * F_0 d" using c1 by linarith
  have "newton_loop d ((1 - e2 d) * spec_nu d l * sin l) (spec_nu d l * cos l) [0..<6] (Some l) = Some l"
    by (rule newton_loop_fixed [OF newton_step_fixed [OF e0 e1 c1 lo hi]])
  then show ?thesis
    using surface_point_inverse [OF h e1 c lo hi glo ghi] by auto
qed

lemma deg_rad: "deg (rad v 0 0) = v"
  by (simp add: deg_def rad_def)

lemma xyz_to_lat_long_degrees:
  "xyz_to_lat_long x y z False d =
     (map_option deg (fst (xyz_to_lat_long x y z True d)), deg (snd (xyz_to_lat_long x y z True d)))"
  by (simp add: xyz_to_lat_long_def Let_def)

lemma lat_long_to_xyz_degrees:
  "lat_long_to_xyz lat long False d = lat_long_to_xyz (rad lat 0 0) (rad long 0 0) True d"
  by (simp add: lat_long_to_xyz_def)

lemma round_trip_exact:
  assumes h: "H d = 0" and e0: "0 \<le> e2 d" and e1: "e2 d < 1" and c1: "1 \<le> semi_a d * F_0 d"
    and lo: "- 90 < lat" and hi: "lat < 90" and glo: "- 180 < long" and ghi: "long \<le> 180"
  shows "\<exists>x y z. lat_long_to_xyz lat long False d = Some (x, y, z)
           \<and> xyz_to_lat_long x y z False d = (Some lat, long)"
proof -
  have k: "0 < pi / 180" using pi_gt_zero by simp
  have r: "rad v 0 0 = v * (pi / 180)" for v by (simp add: rad_def)
  have "- 90 * (pi / 180) < lat * (pi / 180)" "lat * (pi / 180) < 90 * (pi / 180)"
    using lo hi k by (simp_all only: mult_strict_right_mono)
  then have a: "- (pi / 2) < rad lat 0 0" "rad lat 0 0 < pi / 2"
    unfolding r by simp_all
  have "- 180 * (pi / 180) < long * (pi / 180)" "long * (pi / 180) \<le> 180 * (pi / 180)"
    using glo ghi k by (simp_all only: mult_strict_right_mono mult_right_mono less_imp_le)
  then have b: "- pi < rad long 0 0" "rad long 0 0 \<le> pi"
    unfolding r by simp_all
  obtain x y z where f: "lat_long_to_xyz (rad lat 0 0) (rad long 0 0) True d = Some (x, y, z)"
    and g: "xyz_to_lat_long x y z True d = (Some (rad lat 0 0), rad long 0 0)"
    using round_trip_radians [OF h e0 e1 c1 a b] by blast
  have "xyz_to_lat_long x y z False d = (Some lat, long)"
    unfolding xyz_to_lat_long_degrees g by (simp add: deg_rad)
  then show ?thesis
    using f unfolding lat_long_to_xyz_degrees by blast
qed

lemma round_trip_wgs84:
  assumes "- 90 < lat" and "lat < 90" and "- 180 < long" and "long \<le> 180"
  shows "\<exists>x y z. lat_long_to_xyz lat long False wgs84 = Some (x, y, z)
           \<and> xyz_to_lat_long x y z False wgs84 = (Some lat, long)"
proof -
  have "H wgs84 = 0"
    by (simp add: wgs84_def)
  moreover have "0 \<le> e2 wgs84" and "e2 wgs84 < 1"
    using e2_wgs84 by simp_all
  moreover have "1 \<le> semi_a wgs84 * F_0 wgs84"
    by (simp add: wgs84_def)
  ultimately show ?thesis
    using assms by (rule round_trip_exact)
qed



end
